theory Spec2Isabelle
  imports Main
begin

section \<open>JavaScript values and the host runtime\<close>

text \<open>
  The client (\<^verbatim>\<open>src/lib/openaiClient.ts\<close>) works on values parsed from response bodies,
  which it never type-checks, so every field it reads holds an arbitrary JavaScript
  value. Numbers are kept abstract (the type parameter \<open>'n\<close>): the client never computes
  with them and only prints them through the host's \<^verbatim>\<open>String(n)\<close>. A \<open>string\<close> is a list of
  code units; \<open>char\<close> covers the code units below 256. An object is the list of its own
  properties in insertion order, looked up by the first entry of a key (a parsed body
  has no duplicate keys).
\<close>

datatype 'n jsval =
    JUndefined
  | JNull
  | JBool bool
  | JNum 'n
  | JStr string
  | JArr "'n jsval list"
  | JObj "(string \<times> 'n jsval) list"

text \<open>
  What the code can throw: \<^verbatim>\<open>new Error(msg)\<close>, a TypeError (a property read on
  \<^verbatim>\<open>null\<close>/\<^verbatim>\<open>undefined\<close>, a call of a non-function), the SyntaxError with which
  \<^verbatim>\<open>res.json()\<close> rejects on a body that is not JSON, and the rejection of \<^verbatim>\<open>fetch\<close>
  when no response arrives.
\<close>

datatype exn = Error string | TypeError | SyntaxError | NetworkError

text \<open>\<^verbatim>\<open>(err as Error).message\<close>; only \<open>Error\<close> values reach it, the other texts are the host's.\<close>

fun exn_message :: "exn \<Rightarrow> string" where
  "exn_message (Error m) = m"
| "exn_message TypeError = ''TypeError''"
| "exn_message SyntaxError = ''SyntaxError''"
| "exn_message NetworkError = ''Failed to fetch''"

text \<open>\<^verbatim>\<open>v === null || v === undefined\<close>, the test behind \<^verbatim>\<open>??\<close> and \<^verbatim>\<open>?.\<close>.\<close>

fun nullish :: "'n jsval \<Rightarrow> bool" where
  "nullish JUndefined = True"
| "nullish JNull = True"
| "nullish v = False"

text \<open>\<^verbatim>\<open>a ?? b\<close> for a right operand whose evaluation neither throws nor has an effect.\<close>

definition coalesce :: "'n jsval \<Rightarrow> 'n jsval \<Rightarrow> 'n jsval" where
  "coalesce a b = (if nullish a then b else a)"

text \<open>
  \<^verbatim>\<open>v.k\<close>: a TypeError on \<^verbatim>\<open>null\<close> and \<^verbatim>\<open>undefined\<close>, the own property of an object,
  and \<^verbatim>\<open>undefined\<close> on a primitive or an array (none of the keys the client reads is
  defined on a prototype).
\<close>

fun getProp :: "'n jsval \<Rightarrow> string \<Rightarrow> exn + 'n jsval" where
  "getProp JUndefined k = Inl TypeError"
| "getProp JNull k = Inl TypeError"
| "getProp (JObj kvs) k = Inr (case map_of kvs k of None \<Rightarrow> JUndefined | Some v \<Rightarrow> v)"
| "getProp v k = Inr JUndefined"

text \<open>\<^verbatim>\<open>v?.k\<close>: \<^verbatim>\<open>undefined\<close> where \<^verbatim>\<open>v.k\<close> would throw.\<close>

definition optProp :: "'n jsval \<Rightarrow> string \<Rightarrow> 'n jsval" where
  "optProp v k = (case getProp v k of Inl e \<Rightarrow> JUndefined | Inr x \<Rightarrow> x)"

text \<open>\<^verbatim>\<open>Array.prototype.join\<close> on strings.\<close>

fun join :: "string \<Rightarrow> string list \<Rightarrow> string" where
  "join sep [] = []"
| "join sep [s] = s"
| "join sep (s # t # ss) = s @ sep @ join sep (t # ss)"

text \<open>The first thrown exception of a sequence of evaluations, or all their values.\<close>

fun sequence :: "(exn + 'a) list \<Rightarrow> exn + 'a list" where
  "sequence [] = Inr []"
| "sequence (Inl e # rs) = Inl e"
| "sequence (Inr v # rs) = (case sequence rs of Inl e \<Rightarrow> Inl e | Inr vs \<Rightarrow> Inr (v # vs))"

text \<open>
  The string conversion of a template literal \<^verbatim>\<open>`${v}`\<close>. A plain object prints as
  \<^verbatim>\<open>[object Object]\<close>, unless it has an own \<^verbatim>\<open>toString\<close> property: a parsed value is
  never callable, so the conversion finds no primitive and throws a TypeError. An array
  joins its elements with commas, \<^verbatim>\<open>null\<close> and \<^verbatim>\<open>undefined\<close> printing as nothing.
\<close>

fun ToString :: "('n \<Rightarrow> string) \<Rightarrow> 'n jsval \<Rightarrow> exn + string" where
  "ToString num JUndefined = Inr ''undefined''"
| "ToString num JNull = Inr ''null''"
| "ToString num (JBool b) = Inr (if b then ''true'' else ''false'')"
| "ToString num (JNum n) = Inr (num n)"
| "ToString num (JStr s) = Inr s"
| "ToString num (JArr vs) =
     (case sequence (map (\<lambda>v. if nullish v then Inr [] else ToString num v) vs) of
        Inl e \<Rightarrow> Inl e
      | Inr ss \<Rightarrow> Inr (join '','' ss))"
| "ToString num (JObj kvs) =
     (if ''toString'' \<in> fst ` set kvs then Inl TypeError else Inr ''[object Object]'')"

text \<open>
  \<^verbatim>\<open>String.prototype.trim\<close>: the white space and line terminators of ECMAScript among
  the code units below 256 (TAB, LF, VT, FF, CR, SP, NBSP).
\<close>

definition is_ws :: "char \<Rightarrow> bool" where
  "is_ws c = (c \<in> set [CHR 0x09, CHR 0x0A, CHR 0x0B, CHR 0x0C, CHR 0x0D, CHR 0x20, CHR 0xA0])"

definition trim :: "string \<Rightarrow> string" where
  "trim s = rev (dropWhile is_ws (rev (dropWhile is_ws s)))"

text \<open>The decimal digits of \<^verbatim>\<open>res.status\<close> inside a template literal.\<close>

fun show_nat :: "nat \<Rightarrow> string" where
  "show_nat n =
     (if n < 10 then [''0123456789'' ! n]
      else show_nat (n div 10) @ [''0123456789'' ! (n mod 10)])"

declare show_nat.simps [simp del]

subsection \<open>The data model (\<^verbatim>\<open>@/types\<close>)\<close>

record Settings =
  apiKey :: string
  model :: string
  vectorStoreId :: string

text \<open>
  The fields of a \<^verbatim>\<open>KnowledgeFile\<close> are declared \<^verbatim>\<open>string\<close> and \<^verbatim>\<open>number\<close>, but the client
  fills them with whatever the response holds; \<open>kf_metadata\<close> is optional
  (\<open>None\<close>: the property is absent).
\<close>

record 'n KnowledgeFile =
  kf_id :: "'n jsval"
  kf_filename :: "'n jsval"
  kf_bytes :: "'n jsval"
  kf_status :: "'n jsval"
  kf_created_at :: "'n jsval"
  kf_metadata :: "'n jsval option"

datatype role = User | Assistant | System

fun role_name :: "role \<Rightarrow> string" where
  "role_name User = ''user''"
| "role_name Assistant = ''assistant''"
| "role_name System = ''system''"

record 'n ChatMessage =
  msg_id :: "'n jsval"
  msg_role :: role
  msg_content :: string
  msg_createdAt :: 'n

text \<open>\<^verbatim>\<open>ApiResult<T>\<close>: \<^verbatim>\<open>{ok: true, data}\<close> or \<^verbatim>\<open>{ok: false, error}\<close>.\<close>

datatype ('n, 'a) ApiResult = Success 'a | Failure "'n jsval"

subsection \<open>Requests, responses and the remote service\<close>

text \<open>The \<^verbatim>\<open>File\<close> of the browser: its name, its size and its content.\<close>

record 'n File =
  file_name :: string
  file_size :: 'n
  file_content :: string

datatype 'n form_value = FormFile "'n File" | FormText string

text \<open>\<open>JsonBody v\<close> is the body \<^verbatim>\<open>JSON.stringify(v)\<close>.\<close>

datatype 'n req_body = NoBody | JsonBody "'n jsval" | FormBody "(string \<times> 'n form_value) list"

record 'n request =
  http_method :: string
  url :: string
  headers :: "(string \<times> string) list"
  body :: "'n req_body"

text \<open>
  A \<^verbatim>\<open>Response\<close>: \<open>json\<close> is what \<^verbatim>\<open>res.json()\<close> resolves to, \<open>None\<close> when the body is not
  JSON and the promise rejects.
\<close>

record 'n response =
  status :: nat
  statusText :: string
  json :: "'n jsval option"

text \<open>\<^verbatim>\<open>res.ok\<close>: the status is in the range 200 to 299.\<close>

definition res_ok :: "'n response \<Rightarrow> bool" where
  "res_ok res = (200 \<le> status res \<and> status res \<le> 299)"

datatype 'n fetch_result = Rejected | Responded "'n response"

text \<open>
  Everything the client takes from its environment. \<open>remote\<close> answers a request, given
  the requests issued before it; \<open>settle_choices\<close> is the order in which the event loop
  settles concurrent promises (see \<open>Promise_all\<close>); the clock and the identifier
  generator are read at a point of the interaction, given by the requests issued so far.
\<close>

record 'n host =
  remote :: "'n request list \<Rightarrow> 'n request \<Rightarrow> 'n fetch_result"
  settle_choices :: "nat list"
  String_number :: "'n \<Rightarrow> string"
  JSON_stringify :: "'n jsval \<Rightarrow> string option"
  Date_now :: "'n request list \<Rightarrow> 'n"
  randomUUID :: "'n request list \<Rightarrow> string"

text \<open>
  \<^verbatim>\<open>await fetch(...)\<close>: the request is appended to the log of issued requests, and the
  call either yields the response or throws.
\<close>

definition fetch ::
  "'n host \<Rightarrow> 'n request \<Rightarrow> 'n request list \<Rightarrow> (exn + 'n response) \<times> 'n request list" where
  "fetch h req log =
     (case remote h log req of Rejected \<Rightarrow> Inl NetworkError | Responded res \<Rightarrow> Inr res,
      log @ [req])"

section \<open>The client\<close>

definition API_BASE :: string where
  "API_BASE = ''https://api.openai.com/v1''"

text \<open>\<open>Inl (Error m)\<close> is \<^verbatim>\<open>throw new Error(m)\<close>.\<close>

definition ensureSettings :: "Settings \<Rightarrow> exn + unit" where
  "ensureSettings settings =
     (if apiKey settings = [] then Inl (Error ''Missing API key'')
      else if vectorStoreId settings = [] then Inl (Error ''Missing vector store id'')
      else Inr ())"

definition authHeaders :: "string \<Rightarrow> (string \<times> string) list \<Rightarrow> (string \<times> string) list" where
  "authHeaders key extra = (''Authorization'', ''Bearer '' @ key) # extra"

definition handleResponse :: "'n response \<Rightarrow> exn + ('n, 'n jsval) ApiResult" where
  "handleResponse res =
     (if res_ok res then
        (case json res of None \<Rightarrow> Inl SyntaxError | Some j \<Rightarrow> Inr (Success j))
      else
        (let message = JStr (show_nat (status res) @ '' '' @ statusText res) in
         Inr (Failure
           (case json res of
              None \<Rightarrow> message
            | Some b \<Rightarrow>
                (case getProp b ''error'' of
                   Inl e \<Rightarrow> message
                 | Inr err \<Rightarrow> coalesce (optProp err ''message'') message)))))"

subsection \<open>Create Vector Store\<close>

definition createVectorStore_request :: "string \<Rightarrow> Settings \<Rightarrow> 'n request" where
  "createVectorStore_request name settings =
     \<lparr>http_method = ''POST'',
      url = API_BASE @ ''/vector_stores'',
      headers = authHeaders (apiKey settings) [(''Content-Type'', ''application/json'')],
      body = JsonBody (JObj [(''name'', JStr name)])\<rparr>"

text \<open>
  Every operation takes the log of the requests issued so far and returns what it returns
  or throws (\<open>Inl\<close>), with the log it leaves.
\<close>

definition createVectorStore ::
  "'n host \<Rightarrow> string \<Rightarrow> Settings \<Rightarrow> 'n request list \<Rightarrow>
   (exn + ('n, 'n jsval) ApiResult) \<times> 'n request list" where
  "createVectorStore h name settings log =
     (if trim name = [] then (Inl (Error ''Vector store name is required''), log)
      else if apiKey settings = [] then (Inl (Error ''API key required''), log)
      else
        (case fetch h (createVectorStore_request name settings) log of
           (Inl e, log1) \<Rightarrow> (Inl e, log1)
         | (Inr res, log1) \<Rightarrow> (handleResponse res, log1)))"

subsection \<open>List Files\<close>

text \<open>
  \<^verbatim>\<open>xs.map(async (x) => ...)\<close>: the callbacks start in the order of the array, and each
  issues its request before the next one starts; the outcome of each promise is kept
  (\<open>Inl\<close>: it rejects), a rejection does not stop the later callbacks.
\<close>

fun map_async ::
  "('a \<Rightarrow> 'n request list \<Rightarrow> (exn + 'b) \<times> 'n request list) \<Rightarrow> 'a list \<Rightarrow> 'n request list \<Rightarrow>
   (exn + 'b) list \<times> 'n request list" where
  "map_async f [] log = ([], log)"
| "map_async f (x # xs) log =
     (case f x log of (r, log1) \<Rightarrow>
        (case map_async f xs log1 of (rs, log2) \<Rightarrow> (r # rs, log2)))"

text \<open>
  \<^verbatim>\<open>Promise.all\<close>. The promises settle one at a time, in an order the program does not
  control: at each step the next choice picks one of the promises still pending (the
  first one when the choices run out). A fulfilled promise stores its value at its own
  index of the result array, the first rejected one rejects the whole, and when none is
  pending the array is the result.
\<close>

definition pick :: "nat list \<Rightarrow> 'a list \<Rightarrow> nat" where
  "pick cs pending = (case cs of [] \<Rightarrow> 0 | c # cs' \<Rightarrow> c mod length pending)"

lemma pick_less: "pending \<noteq> [] \<Longrightarrow> pick cs pending < length pending"
  by (cases cs) (simp_all add: pick_def)

function settle ::
  "nat list \<Rightarrow> (nat \<times> (exn + 'a)) list \<Rightarrow> 'a option list \<Rightarrow> exn + 'a list" where
  "settle cs pending vals =
     (if pending = [] then Inr (map the vals)
      else
        (case pending ! pick cs pending of
           (i, Inl e) \<Rightarrow> Inl e
         | (i, Inr v) \<Rightarrow>
             settle (tl cs)
               (take (pick cs pending) pending @ drop (Suc (pick cs pending)) pending)
               (vals[i := Some v])))"
  by pat_completeness auto
termination
proof (relation "measure (\<lambda>(cs, pending, vals). length pending)")
  show "wf (measure (\<lambda>(cs, pending, vals). length pending))"
    by simp
next
  fix cs :: "nat list" and pending :: "(nat \<times> (exn + 'a)) list" and vals :: "'a option list"
    and i v
  assume "pending \<noteq> []"
  then have "pick cs pending < length pending"
    by (rule pick_less)
  then show "((tl cs, take (pick cs pending) pending @ drop (Suc (pick cs pending)) pending,
       vals[i := Some v]), cs, pending, vals)
      \<in> measure (\<lambda>(cs, pending, vals). length pending)"
    by auto
qed

declare settle.simps [simp del]

definition Promise_all :: "nat list \<Rightarrow> (exn + 'a) list \<Rightarrow> exn + 'a list" where
  "Promise_all cs ps =
     settle cs (zip [0..<length ps] ps) (replicate (length ps) None)"

text \<open>Lines 62 to 69: the file built from the listed association alone.\<close>

definition association_file ::
  "('n::zero) host \<Rightarrow> 'n jsval \<Rightarrow> 'n request list \<Rightarrow> exn + 'n KnowledgeFile" where
  "association_file h item log =
     (case getProp item ''id'' of
        Inl e \<Rightarrow> Inl e
      | Inr item_id \<Rightarrow>
          Inr \<lparr>kf_id = item_id,
               kf_filename =
                 coalesce (optProp item ''filename'') (coalesce (optProp item ''file_id'') item_id),
               kf_bytes = coalesce (optProp item ''usage_bytes'') (JNum 0),
               kf_status = coalesce (optProp item ''status'') (JStr ''unknown''),
               kf_created_at = coalesce (optProp item ''created_at'') (JNum (Date_now h log)),
               kf_metadata = Some (coalesce (optProp item ''metadata'') (JObj []))\<rparr>)"

definition detail_request :: "Settings \<Rightarrow> string \<Rightarrow> 'n request" where
  "detail_request settings file_id =
     \<lparr>http_method = ''GET'',
      url = API_BASE @ ''/files/'' @ file_id,
      headers = authHeaders (apiKey settings) [],
      body = NoBody\<rparr>"

text \<open>Lines 77 to 83: the fields the detail overwrites; reading them throws on \<^verbatim>\<open>null\<close>.\<close>

definition enrich :: "'n KnowledgeFile \<Rightarrow> 'n jsval \<Rightarrow> exn + 'n KnowledgeFile" where
  "enrich file detail =
     (case getProp detail ''filename'' of
        Inl e \<Rightarrow> Inl e
      | Inr detail_filename \<Rightarrow>
          Inr (file
            \<lparr>kf_filename := coalesce detail_filename (kf_filename file),
             kf_bytes := coalesce (optProp detail ''bytes'') (kf_bytes file),
             kf_metadata :=
               Some (coalesce (optProp detail ''metadata'')
                      (case kf_metadata file of None \<Rightarrow> JUndefined | Some m \<Rightarrow> m)),
             kf_created_at := coalesce (optProp detail ''created_at'') (kf_created_at file)\<rparr>))"

text \<open>
  The callback of lines 61 to 90. Everything from the detail request on is inside the
  \<^verbatim>\<open>try\<close>, whose \<^verbatim>\<open>catch\<close> returns the file as it stands.
\<close>

definition listFiles_item ::
  "('n::zero) host \<Rightarrow> Settings \<Rightarrow> 'n jsval \<Rightarrow> 'n request list \<Rightarrow>
   (exn + 'n KnowledgeFile) \<times> 'n request list" where
  "listFiles_item h settings item log =
     (case association_file h item log of
        Inl e \<Rightarrow> (Inl e, log)
      | Inr file \<Rightarrow>
          (case ToString (String_number h)
                  (coalesce (optProp item ''file_id'') (optProp item ''id'')) of
             Inl e \<Rightarrow> (Inr file, log)
           | Inr file_id \<Rightarrow>
               (case fetch h (detail_request settings file_id) log of
                  (Inl e, log1) \<Rightarrow> (Inr file, log1)
                | (Inr detailRes, log1) \<Rightarrow>
                    (if res_ok detailRes then
                       (case json detailRes of
                          None \<Rightarrow> (Inr file, log1)
                        | Some detail \<Rightarrow>
                            (case enrich file detail of
                               Inl e \<Rightarrow> (Inr file, log1)
                             | Inr file' \<Rightarrow> (Inr file', log1)))
                     else (Inr file, log1)))))"

definition listFiles_request :: "Settings \<Rightarrow> 'n request" where
  "listFiles_request settings =
     \<lparr>http_method = ''GET'',
      url = API_BASE @ ''/vector_stores/'' @ vectorStoreId settings @ ''/files?limit=100'',
      headers = authHeaders (apiKey settings) [],
      body = NoBody\<rparr>"

text \<open>
  \<^verbatim>\<open>parsed.data.data.map\<close> throws a TypeError unless \<^verbatim>\<open>parsed.data.data\<close> is an array.
\<close>

definition listFiles ::
  "('n::zero) host \<Rightarrow> Settings \<Rightarrow> 'n request list \<Rightarrow>
   (exn + ('n, 'n KnowledgeFile list) ApiResult) \<times> 'n request list" where
  "listFiles h settings log =
     (case ensureSettings settings of
        Inl err \<Rightarrow> (Inr (Failure (JStr (exn_message err))), log)
      | Inr u \<Rightarrow>
          (case fetch h (listFiles_request settings) log of
             (Inl e, log1) \<Rightarrow> (Inl e, log1)
           | (Inr res, log1) \<Rightarrow>
               (case handleResponse res of
                  Inl e \<Rightarrow> (Inl e, log1)
                | Inr (Failure m) \<Rightarrow> (Inr (Failure m), log1)
                | Inr (Success parsed) \<Rightarrow>
                    (case getProp parsed ''data'' of
                       Inl e \<Rightarrow> (Inl e, log1)
                     | Inr (JArr items) \<Rightarrow>
                         (case map_async (listFiles_item h settings) items log1 of
                            (promises, log2) \<Rightarrow>
                              (case Promise_all (settle_choices h) promises of
                                 Inl e \<Rightarrow> (Inl e, log2)
                               | Inr files \<Rightarrow> (Inr (Success files), log2)))
                     | Inr other \<Rightarrow> (Inl TypeError, log1)))))"

subsection \<open>Upload, Delete and Replace\<close>

definition upload_request :: "'n File \<Rightarrow> Settings \<Rightarrow> 'n request" where
  "upload_request file settings =
     \<lparr>http_method = ''POST'',
      url = API_BASE @ ''/files'',
      headers = authHeaders (apiKey settings) [],
      body = FormBody [(''file'', FormFile file), (''purpose'', FormText ''assistants'')]\<rparr>"

definition attach_request :: "Settings \<Rightarrow> 'n jsval \<Rightarrow> 'n request" where
  "attach_request settings uploaded_id =
     \<lparr>http_method = ''POST'',
      url = API_BASE @ ''/vector_stores/'' @ vectorStoreId settings @ ''/files'',
      headers = authHeaders (apiKey settings) [(''Content-Type'', ''application/json'')],
      body = JsonBody (JObj [(''file_id'', uploaded_id)])\<rparr>"

definition uploadFile ::
  "'n host \<Rightarrow> 'n File \<Rightarrow> Settings \<Rightarrow> 'n request list \<Rightarrow>
   (exn + ('n, 'n KnowledgeFile) ApiResult) \<times> 'n request list" where
  "uploadFile h file settings log =
     (case ensureSettings settings of
        Inl err \<Rightarrow> (Inr (Failure (JStr (exn_message err))), log)
      | Inr u \<Rightarrow>
          (case fetch h (upload_request file settings) log of
             (Inl e, log1) \<Rightarrow> (Inl e, log1)
           | (Inr uploadRes, log1) \<Rightarrow>
               (case handleResponse uploadRes of
                  Inl e \<Rightarrow> (Inl e, log1)
                | Inr (Failure m) \<Rightarrow> (Inr (Failure m), log1)
                | Inr (Success uploaded) \<Rightarrow>
                    (case getProp uploaded ''id'' of
                       Inl e \<Rightarrow> (Inl e, log1)
                     | Inr uploaded_id \<Rightarrow>
                         (case fetch h (attach_request settings uploaded_id) log1 of
                            (Inl e, log2) \<Rightarrow> (Inl e, log2)
                          | (Inr attachRes, log2) \<Rightarrow>
                              (case handleResponse attachRes of
                                 Inl e \<Rightarrow> (Inl e, log2)
                               | Inr (Failure m) \<Rightarrow> (Inr (Failure m), log2)
                               | Inr (Success attached) \<Rightarrow>
                                   (case getProp attached ''id'' of
                                      Inl e \<Rightarrow> (Inl e, log2)
                                    | Inr attached_id \<Rightarrow>
                                        (Inr (Success
                                           \<lparr>kf_id = coalesce attached_id uploaded_id,
                                            kf_filename = JStr (file_name file),
                                            kf_bytes =
                                              coalesce (optProp attached ''usage_bytes'')
                                                (JNum (file_size file)),
                                            kf_status =
                                              coalesce (optProp attached ''status'')
                                                (JStr ''in_progress''),
                                            kf_created_at =
                                              coalesce (optProp attached ''created_at'')
                                                (JNum (Date_now h log2)),
                                            kf_metadata = None\<rparr>),
                                         log2))))))))"

definition delete_request :: "string \<Rightarrow> Settings \<Rightarrow> 'n request" where
  "delete_request fileId settings =
     \<lparr>http_method = ''DELETE'',
      url = API_BASE @ ''/vector_stores/'' @ vectorStoreId settings @ ''/files/'' @ fileId,
      headers = authHeaders (apiKey settings) [],
      body = NoBody\<rparr>"

definition deleteFile ::
  "'n host \<Rightarrow> string \<Rightarrow> Settings \<Rightarrow> 'n request list \<Rightarrow>
   (exn + ('n, bool) ApiResult) \<times> 'n request list" where
  "deleteFile h fileId settings log =
     (case ensureSettings settings of
        Inl err \<Rightarrow> (Inr (Failure (JStr (exn_message err))), log)
      | Inr u \<Rightarrow>
          (case fetch h (delete_request fileId settings) log of
             (Inl e, log1) \<Rightarrow> (Inl e, log1)
           | (Inr res, log1) \<Rightarrow>
               (case handleResponse res of
                  Inl e \<Rightarrow> (Inl e, log1)
                | Inr (Failure m) \<Rightarrow> (Inr (Failure m), log1)
                | Inr (Success parsed) \<Rightarrow> (Inr (Success True), log1))))"

definition replaceFile ::
  "'n host \<Rightarrow> string \<Rightarrow> 'n File \<Rightarrow> Settings \<Rightarrow> 'n request list \<Rightarrow>
   (exn + ('n, 'n KnowledgeFile) ApiResult) \<times> 'n request list" where
  "replaceFile h existingFileId nextFile settings log =
     (case uploadFile h nextFile settings log of
        (Inl e, log1) \<Rightarrow> (Inl e, log1)
      | (Inr (Failure m), log1) \<Rightarrow> (Inr (Failure m), log1)
      | (Inr (Success uploaded), log1) \<Rightarrow>
          (case deleteFile h existingFileId settings log1 of
             (Inl e, log2) \<Rightarrow> (Inl e, log2)
           | (Inr deleted, log2) \<Rightarrow> (Inr (Success uploaded), log2)))"

subsection \<open>Ask Question\<close>

text \<open>\<^verbatim>\<open>k in value && typeof value.k === "string"\<close> on an object, with the string.\<close>

definition string_prop :: "(string \<times> 'n jsval) list \<Rightarrow> string \<Rightarrow> string option" where
  "string_prop kvs k = (case map_of kvs k of Some (JStr s) \<Rightarrow> Some s | _ \<Rightarrow> None)"

lemma size_map_of: "map_of kvs k = Some v \<Longrightarrow> size v < Suc (size_list (size_prod (\<lambda>x. 0) size) kvs)"
  by (induction kvs) (auto split: if_splits)

text \<open>
  \<^verbatim>\<open>JSON.stringify\<close> is the host's (\<open>None\<close>: it throws, and the \<^verbatim>\<open>catch\<close> answers
  \<^verbatim>\<open>[unreadable content]\<close>); it is reached by objects only.
\<close>

function toText :: "'n host \<Rightarrow> 'n jsval \<Rightarrow> string" where
  "toText h JUndefined = []"
| "toText h JNull = []"
| "toText h (JStr s) = s"
| "toText h (JNum n) = String_number h n"
| "toText h (JBool b) = (if b then ''true'' else ''false'')"
| "toText h (JArr vs) = join [CHR 0x0A] (map (toText h) vs)"
| "toText h (JObj kvs) =
     (case string_prop kvs ''text'' of
        Some s \<Rightarrow> s
      | None \<Rightarrow>
          (case string_prop kvs ''output_text'' of
             Some s \<Rightarrow> s
           | None \<Rightarrow>
               (case string_prop kvs ''summary'' of
                  Some s \<Rightarrow> s
                | None \<Rightarrow>
                    (case map_of kvs ''content'' of
                       Some c \<Rightarrow> toText h c
                     | None \<Rightarrow>
                         (case JSON_stringify h (JObj kvs) of
                            Some s \<Rightarrow> s
                          | None \<Rightarrow> ''[unreadable content]'')))))"
  by pat_completeness auto
termination
proof (relation "measure (\<lambda>(h, v). size v)")
  show "wf (measure (\<lambda>(h, v). size v))"
    by simp
next
  fix h :: "'n host" and vs :: "'n jsval list" and v
  assume "v \<in> set vs"
  then have "size v < Suc (size_list size vs)"
    by (induction vs) auto
  then show "((h, v), h, JArr vs) \<in> measure (\<lambda>(h, v). size v)"
    by simp
next
  fix h :: "'n host" and kvs :: "(string \<times> 'n jsval) list" and c
  assume "map_of kvs ''content'' = Some c"
  then show "((h, c), h, JObj kvs) \<in> measure (\<lambda>(h, v). size v)"
    by (simp add: size_map_of)
qed

text \<open>
  The same function statement by statement, with the operations of the source as they
  are, those that can throw included: the \<^verbatim>\<open>in\<close> operator throws a TypeError on
  anything that is not an object, \<^verbatim>\<open>String(value)\<close> is the string conversion, and
  \<^verbatim>\<open>JSON.stringify\<close> is the host's. What keeps them from throwing is the order of the
  tests and the \<^verbatim>\<open>try\<close>; that \<open>toText_eval\<close> never throws, and that its value is
  \<open>toText\<close>, is proved below.
\<close>

text \<open>\<^verbatim>\<open>typeof v\<close>.\<close>

fun typeof :: "'n jsval \<Rightarrow> string" where
  "typeof JUndefined = ''undefined''"
| "typeof JNull = ''object''"
| "typeof (JBool b) = ''boolean''"
| "typeof (JNum n) = ''number''"
| "typeof (JStr s) = ''string''"
| "typeof (JArr vs) = ''object''"
| "typeof (JObj kvs) = ''object''"

text \<open>\<^verbatim>\<open>Array.isArray(v)\<close>, and the elements of an array.\<close>

fun isArray :: "'n jsval \<Rightarrow> bool" where
  "isArray (JArr vs) = True"
| "isArray v = False"

fun elements :: "'n jsval \<Rightarrow> 'n jsval list" where
  "elements (JArr vs) = vs"
| "elements v = []"

text \<open>The string that a value of type \<^verbatim>\<open>string\<close> is.\<close>

fun string_value :: "'n jsval \<Rightarrow> string" where
  "string_value (JStr s) = s"
| "string_value v = []"

text \<open>
  \<^verbatim>\<open>k in v\<close>: an own property of an object; no array has one of the names the client
  asks for; a TypeError on \<^verbatim>\<open>null\<close>, \<^verbatim>\<open>undefined\<close> and the primitives.
\<close>

fun in_op :: "string \<Rightarrow> 'n jsval \<Rightarrow> exn + bool" where
  "in_op k (JObj kvs) = Inr (k \<in> fst ` set kvs)"
| "in_op k (JArr vs) = Inr False"
| "in_op k v = Inl TypeError"

text \<open>\<^verbatim>\<open>k in v && typeof v.k === "string"\<close>, with the string.\<close>

definition string_member :: "string \<Rightarrow> 'n jsval \<Rightarrow> exn + string option" where
  "string_member k v =
     (case in_op k v of
        Inl e \<Rightarrow> Inl e
      | Inr False \<Rightarrow> Inr None
      | Inr True \<Rightarrow>
          (case getProp v k of
             Inl e \<Rightarrow> Inl e
           | Inr x \<Rightarrow> Inr (if typeof x = ''string'' then Some (string_value x) else None)))"

lemma size_elements: "v \<in> set (elements value) \<Longrightarrow> size v < size value"
proof (cases "value")
  case (JArr vs)
  assume "v \<in> set (elements value)"
  then have "v \<in> set vs"
    using JArr by simp
  then have "size v < Suc (size_list size vs)"
    by (induction vs) auto
  then show ?thesis
    using JArr by simp
qed simp_all

lemma size_content:
  assumes "in_op k value = Inr True" and "getProp value k = Inr c"
  shows "size c < size value"
proof (cases "value")
  case (JObj kvs)
  then have "k \<in> fst ` set kvs"
    using assms(1) by simp
  then obtain x where x: "map_of kvs k = Some x"
    by (metis domD dom_map_of_conv_image_fst)
  then have "c = x"
    using assms(2) JObj by simp
  then show ?thesis
    using size_map_of [OF x] JObj by simp
qed (use assms in simp_all)

text \<open>
  Lines 169 to 185. The block of line 174 either throws, returns (\<open>Some\<close>, with what
  it returns) or falls through to the \<^verbatim>\<open>try\<close>.
\<close>

function toText_eval :: "'n host \<Rightarrow> 'n jsval \<Rightarrow> exn + string" where
  "toText_eval h value =
     (if value = JNull \<or> value = JUndefined then Inr []
      else if typeof value = ''string'' then Inr (string_value value)
      else if typeof value = ''number'' \<or> typeof value = ''boolean''
      then ToString (String_number h) value
      else if isArray value then
        (case sequence (map (toText_eval h) (elements value)) of
           Inl e \<Rightarrow> Inl e
         | Inr texts \<Rightarrow> Inr (join [CHR 0x0A] texts))
      else
        (case
           (if typeof value = ''object'' then
              (case string_member ''text'' value of
                 Inl e \<Rightarrow> Inl e
               | Inr (Some s) \<Rightarrow> Inr (Some (Inr s))
               | Inr None \<Rightarrow>
                   (case string_member ''output_text'' value of
                      Inl e \<Rightarrow> Inl e
                    | Inr (Some s) \<Rightarrow> Inr (Some (Inr s))
                    | Inr None \<Rightarrow>
                        (case string_member ''summary'' value of
                           Inl e \<Rightarrow> Inl e
                         | Inr (Some s) \<Rightarrow> Inr (Some (Inr s))
                         | Inr None \<Rightarrow>
                             (case in_op ''content'' value of
                                Inl e \<Rightarrow> Inl e
                              | Inr True \<Rightarrow>
                                  (case getProp value ''content'' of
                                     Inl e \<Rightarrow> Inl e
                                   | Inr c \<Rightarrow> Inr (Some (toText_eval h c)))
                              | Inr False \<Rightarrow> Inr None))))
            else Inr None)
         of
           Inl e \<Rightarrow> Inl e
         | Inr (Some returned) \<Rightarrow> returned
         | Inr None \<Rightarrow>
             (case JSON_stringify h value of
                Some s \<Rightarrow> Inr s
              | None \<Rightarrow> Inr ''[unreadable content]'')))"
  by pat_completeness auto
termination
  apply (relation "measure (\<lambda>(h, v). size v)")
  apply (auto simp: size_elements size_content)
  done

declare toText_eval.simps [simp del]

text \<open>\<^verbatim>\<open>xs.find((entry) => entry.type === t)\<close>; reading \<^verbatim>\<open>type\<close> throws on a \<^verbatim>\<open>null\<close> entry.\<close>

fun find_type :: "string \<Rightarrow> 'n jsval list \<Rightarrow> exn + 'n jsval" where
  "find_type t [] = Inr JUndefined"
| "find_type t (entry # entries) =
     (case getProp entry ''type'' of
        Inl e \<Rightarrow> Inl e
      | Inr ty \<Rightarrow> if ty = JStr t then Inr entry else find_type t entries)"

text \<open>\<^verbatim>\<open>xs[0]\<close>.\<close>

fun index0 :: "'n jsval list \<Rightarrow> 'n jsval" where
  "index0 [] = JUndefined"
| "index0 (x # xs) = x"

text \<open>\<^verbatim>\<open>a || b\<close> on strings: the empty string is the only falsy one.\<close>

definition or_else :: "string \<Rightarrow> string \<Rightarrow> string" where
  "or_else a b = (if a = [] then b else a)"

text \<open>
  Lines 228 to 248: the content unwrapped from the parsed body. The second
  \<^verbatim>\<open>outputArray.find\<close> runs only when \<^verbatim>\<open>messageContent\<close> is nullish, as \<^verbatim>\<open>??\<close> evaluates
  its right operand only then. \<^verbatim>\<open>rawContent\<close> is a string, so \<^verbatim>\<open>content\<close> is \<^verbatim>\<open>rawContent\<close>.
\<close>

definition unwrap_content :: "'n host \<Rightarrow> 'n jsval \<Rightarrow> exn + string" where
  "unwrap_content h parsed =
     (case getProp parsed ''output'' of
        Inl e \<Rightarrow> Inl e
      | Inr output \<Rightarrow>
          (let outputArray = (case output of JArr entries \<Rightarrow> entries | _ \<Rightarrow> []) in
           case find_type ''message'' outputArray of
             Inl e \<Rightarrow> Inl e
           | Inr messageBlock \<Rightarrow>
               (case
                  (case optProp messageBlock ''content'' of
                     JArr cs \<Rightarrow>
                       (case find_type ''output_text'' cs of
                          Inl e \<Rightarrow> Inl e
                        | Inr c \<Rightarrow> Inr (coalesce c (index0 cs)))
                   | _ \<Rightarrow> Inr JUndefined)
                of
                  Inl e \<Rightarrow> Inl e
                | Inr messageContent \<Rightarrow>
                    (case
                       (if nullish messageContent then
                          (case find_type ''output_text'' outputArray of
                             Inl e \<Rightarrow> Inl e
                           | Inr entry \<Rightarrow>
                               Inr (coalesce entry
                                     (coalesce (optProp parsed ''output_text'') output)))
                        else Inr messageContent)
                     of
                       Inl e \<Rightarrow> Inl e
                     | Inr outputEntry \<Rightarrow>
                         Inr (or_else (toText h outputEntry)
                               (or_else (toText h (optProp parsed ''output_text''))
                                 (or_else (toText h (optProp parsed ''response''))
                                   (or_else (toText h (optProp parsed ''result''))
                                     (or_else (toText h (optProp parsed ''text''))
                                       ''No response'')))))))))"

definition askQuestion_payload :: "string \<Rightarrow> 'n ChatMessage list \<Rightarrow> Settings \<Rightarrow> 'n jsval" where
  "askQuestion_payload question chatHistory settings =
     JObj
       [(''model'', JStr (if model settings = [] then ''gpt-4o-mini'' else model settings)),
        (''input'',
           JArr
             (map (\<lambda>message.
                     JObj
                       [(''role'', JStr (role_name (msg_role message))),
                        (''content'',
                           JArr
                             [JObj
                                [(''type'',
                                    JStr (if msg_role message = Assistant then ''output_text''
                                          else ''input_text'')),
                                 (''text'', JStr (msg_content message))]])])
                chatHistory
              @ [JObj
                   [(''role'', JStr ''user''),
                    (''content'',
                       JArr [JObj [(''type'', JStr ''input_text''), (''text'', JStr question)]])]])),
        (''tools'',
           JArr
             [JObj
                [(''type'', JStr ''file_search''),
                 (''vector_store_ids'', JArr [JStr (vectorStoreId settings)])]])]"

definition askQuestion_request :: "string \<Rightarrow> 'n ChatMessage list \<Rightarrow> Settings \<Rightarrow> 'n request" where
  "askQuestion_request question chatHistory settings =
     \<lparr>http_method = ''POST'',
      url = API_BASE @ ''/responses'',
      headers =
        authHeaders (apiKey settings)
          [(''Content-Type'', ''application/json''), (''OpenAI-Beta'', ''assistants=v2'')],
      body = JsonBody (askQuestion_payload question chatHistory settings)\<rparr>"

definition askQuestion ::
  "'n host \<Rightarrow> string \<Rightarrow> 'n ChatMessage list \<Rightarrow> Settings \<Rightarrow> 'n request list \<Rightarrow>
   (exn + ('n, 'n ChatMessage) ApiResult) \<times> 'n request list" where
  "askQuestion h question chatHistory settings log =
     (if trim question = [] then (Inr (Failure (JStr ''Question is empty'')), log)
      else
        (case ensureSettings settings of
           Inl err \<Rightarrow> (Inr (Failure (JStr (exn_message err))), log)
         | Inr u \<Rightarrow>
             (case fetch h (askQuestion_request question chatHistory settings) log of
                (Inl e, log1) \<Rightarrow> (Inl e, log1)
              | (Inr res, log1) \<Rightarrow>
                  (case handleResponse res of
                     Inl e \<Rightarrow> (Inl e, log1)
                   | Inr (Failure m) \<Rightarrow> (Inr (Failure m), log1)
                   | Inr (Success parsed) \<Rightarrow>
                       (case unwrap_content h parsed of
                          Inl e \<Rightarrow> (Inl e, log1)
                        | Inr content \<Rightarrow>
                            (Inr (Success
                               \<lparr>msg_id =
                                  coalesce (optProp parsed ''id'') (JStr (randomUUID h log1)),
                                msg_role = Assistant,
                                msg_content = content,
                                msg_createdAt = Date_now h log1\<rparr>),
                             log1))))))"

subsection \<open>Notions used to state the properties of List Files\<close>

text \<open>The log of issued requests at the moment the callback of the \<open>i\<close>-th element starts.\<close>

definition item_log ::
  "('a \<Rightarrow> 'n request list \<Rightarrow> (exn + 'b) \<times> 'n request list) \<Rightarrow> 'a list \<Rightarrow> 'n request list \<Rightarrow>
   nat \<Rightarrow> 'n request list" where
  "item_log f xs log i = snd (map_async f (take i xs) log)"

text \<open>
  What the remote answers to the detail request of an item, issued at a given log
  (\<open>None\<close>: the address of the request cannot be built and no request is issued).
\<close>

definition detail_answer ::
  "'n host \<Rightarrow> Settings \<Rightarrow> 'n jsval \<Rightarrow> 'n request list \<Rightarrow> 'n fetch_result option" where
  "detail_answer h settings item log =
     (case ToString (String_number h)
             (coalesce (optProp item ''file_id'') (optProp item ''id'')) of
        Inl e \<Rightarrow> None
      | Inr file_id \<Rightarrow> Some (remote h log (detail_request settings file_id)))"

text \<open>A detail fetch that fails (no response, or a status outside 2xx) or whose body does not parse.\<close>

definition unusable :: "'n fetch_result \<Rightarrow> bool" where
  "unusable a = (case a of Rejected \<Rightarrow> True | Responded res \<Rightarrow> \<not> res_ok res \<or> json res = None)"

section \<open>Concrete hosts and inputs\<close>

text \<open>
  The host of the concrete evaluations below: numbers are integers printed in decimal,
  the clock advances with the requests issued, the identifier is fixed, and
  \<^verbatim>\<open>JSON.stringify\<close> is not provided (no evaluation below reaches it).
\<close>

definition show_int :: "int \<Rightarrow> string" where
  "show_int i = (if i < 0 then CHR ''-'' # show_nat (nat (- i)) else show_nat (nat i))"

definition fixture_host ::
  "(int request list \<Rightarrow> int request \<Rightarrow> int fetch_result) \<Rightarrow> nat list \<Rightarrow> int host" where
  "fixture_host r cs =
     \<lparr>remote = r,
      settle_choices = cs,
      String_number = show_int,
      JSON_stringify = (\<lambda>v. None),
      Date_now = (\<lambda>log. 1700000000000 + int (length log)),
      randomUUID = (\<lambda>log. ''3f2b8c1e-uuid'')\<rparr>"

definition fixture_settings :: Settings where
  "fixture_settings = \<lparr>apiKey = ''sk-test'', model = [], vectorStoreId = ''vs_1''\<rparr>"

text \<open>A remote that gives every request the same answer.\<close>

definition always :: "int fetch_result \<Rightarrow> int request list \<Rightarrow> int request \<Rightarrow> int fetch_result" where
  "always a log req = a"

text \<open>A response \<^verbatim>\<open>200 OK\<close> with a JSON body.\<close>

definition ok_json :: "int jsval \<Rightarrow> int fetch_result" where
  "ok_json b = Responded \<lparr>status = 200, statusText = ''OK'', json = Some b\<rparr>"

text \<open>The three response bodies of the chat-output test vectors.\<close>

definition vector_message :: "'n jsval" where
  "vector_message =
     JObj [(''output'',
            JArr [JObj [(''type'', JStr ''message''),
                        (''content'',
                         JArr [JObj [(''type'', JStr ''output_text''),
                                     (''text'', JStr ''Paris'')]])]])]"

definition vector_output_text :: "'n jsval" where
  "vector_output_text = JObj [(''output_text'', JStr ''Lyon'')]"

definition vector_unrecognized :: "'n \<Rightarrow> 'n jsval" where
  "vector_unrecognized n = JObj [(''foo'', JNum n)]"

text \<open>
  A store with two associations. The detail of the first file is served, the detail
  request of the second gets no response.
\<close>

definition listing_body :: "int jsval" where
  "listing_body =
     JObj [(''data'',
            JArr [JObj [(''id'', JStr ''vsf_1''), (''file_id'', JStr ''file-1''),
                        (''status'', JStr ''completed'')],
                  JObj [(''id'', JStr ''vsf_2'')]])]"

definition listing_remote :: "int request list \<Rightarrow> int request \<Rightarrow> int fetch_result" where
  "listing_remote log req =
     (if url req = ''https://api.openai.com/v1/vector_stores/vs_1/files?limit=100''
      then ok_json listing_body
      else if url req = ''https://api.openai.com/v1/files/file-1''
      then ok_json (JObj [(''id'', JStr ''file-1''), (''filename'', JStr ''a.txt''),
                          (''bytes'', JNum 12), (''status'', JStr ''processed'')])
      else Rejected)"

text \<open>What \<open>listFiles\<close> returns against that store.\<close>

definition listing_files :: "int KnowledgeFile list" where
  "listing_files =
     [\<lparr>kf_id = JStr ''vsf_1'', kf_filename = JStr ''a.txt'', kf_bytes = JNum 12,
       kf_status = JStr ''completed'', kf_created_at = JNum 1700000000001,
       kf_metadata = Some (JObj [])\<rparr>,
      \<lparr>kf_id = JStr ''vsf_2'', kf_filename = JStr ''vsf_2'', kf_bytes = JNum 0,
       kf_status = JStr ''unknown'', kf_created_at = JNum 1700000000002,
       kf_metadata = Some (JObj [])\<rparr>]"

text \<open>A response \<^verbatim>\<open>401\<close> with an error body.\<close>

definition unauthorized :: "int fetch_result" where
  "unauthorized =
     Responded \<lparr>status = 401, statusText = ''Unauthorized'',
                json = Some (JObj [(''error'', JObj [(''message'', JStr ''bad key'')])])\<rparr>"

text \<open>Settings with a key and no vector store id.\<close>

definition settings_without_store :: Settings where
  "settings_without_store = \<lparr>apiKey = ''sk-test'', model = [], vectorStoreId = []\<rparr>"

text \<open>The body that answers the creation of a store.\<close>

definition created_store :: "int jsval" where
  "created_store = JObj [(''id'', JStr ''vs_9''), (''name'', JStr ''docs'')]"

text \<open>A response \<^verbatim>\<open>200 OK\<close> whose body is not JSON.\<close>

definition not_json :: "int fetch_result" where
  "not_json = Responded \<lparr>status = 200, statusText = ''OK'', json = None\<rparr>"

definition fixture_file :: "int File" where
  "fixture_file = \<lparr>file_name = ''b.txt'', file_size = 5, file_content = ''hello''\<rparr>"

text \<open>
  A remote that registers and attaches a file, and answers the delete request as given.
\<close>

definition replace_remote :: "int fetch_result \<Rightarrow> int request list \<Rightarrow> int request \<Rightarrow> int fetch_result" where
  "replace_remote deleted log req =
     (if http_method req = ''DELETE'' then deleted
      else if url req = ''https://api.openai.com/v1/files''
      then ok_json (JObj [(''id'', JStr ''file-2'')])
      else ok_json (JObj [(''id'', JStr ''vsf_2''), (''status'', JStr ''in_progress'')]))"

text \<open>What \<open>uploadFile\<close> returns against that remote.\<close>

definition uploaded_file :: "int KnowledgeFile" where
  "uploaded_file =
     \<lparr>kf_id = JStr ''vsf_2'', kf_filename = JStr ''b.txt'', kf_bytes = JNum 5,
      kf_status = JStr ''in_progress'', kf_created_at = JNum 1700000000002,
      kf_metadata = None\<rparr>"

text \<open>A response \<^verbatim>\<open>204 No Content\<close>: a success with an empty body, which is not JSON.\<close>

definition no_content :: "int fetch_result" where
  "no_content = Responded \<lparr>status = 204, statusText = ''No Content'', json = None\<rparr>"

text \<open>A response \<^verbatim>\<open>404\<close> with an error body.\<close>

definition not_found :: "int fetch_result" where
  "not_found =
     Responded \<lparr>status = 404, statusText = ''Not Found'',
                json = Some (JObj [(''error'', JObj [(''message'', JStr ''No such file'')])])\<rparr>"

text \<open>A value with nested content, a number, \<^verbatim>\<open>null\<close> and a boolean.\<close>

definition nested_value :: "int jsval" where
  "nested_value =
     JArr [JObj [(''content'', JObj [(''text'', JStr ''a'')])], JNum 7, JNull, JBool True]"

text \<open>
  A store with one association that has every listed field, and whose detail request is
  answered by an error without a JSON body.
\<close>

definition kept_listing_body :: "int jsval" where
  "kept_listing_body =
     JObj [(''data'',
            JArr [JObj [(''id'', JStr ''vsf_3''), (''file_id'', JStr ''file-3''),
                        (''filename'', JStr ''notes.md''), (''usage_bytes'', JNum 2048),
                        (''status'', JStr ''completed''), (''created_at'', JNum 1699999999),
                        (''metadata'', JObj [(''team'', JStr ''docs'')])]])]"

definition kept_listing_remote :: "int request list \<Rightarrow> int request \<Rightarrow> int fetch_result" where
  "kept_listing_remote log req =
     (if url req = ''https://api.openai.com/v1/vector_stores/vs_1/files?limit=100''
      then ok_json kept_listing_body
      else Responded \<lparr>status = 500, statusText = ''Internal Server Error'', json = None\<rparr>)"

text \<open>What \<open>listFiles\<close> returns for that association.\<close>

definition kept_file :: "int KnowledgeFile" where
  "kept_file =
     \<lparr>kf_id = JStr ''vsf_3'', kf_filename = JStr ''notes.md'', kf_bytes = JNum 2048,
      kf_status = JStr ''completed'', kf_created_at = JNum 1699999999,
      kf_metadata = Some (JObj [(''team'', JStr ''docs'')])\<rparr>"

section \<open>Properties\<close>

lemmas fixture_defs =
  fixture_host_def fixture_settings_def always_def ok_json_def listing_remote_def
  listing_body_def listing_files_def unauthorized_def settings_without_store_def
  created_store_def not_json_def fixture_file_def replace_remote_def uploaded_file_def
  not_found_def no_content_def nested_value_def kept_listing_body_def
  kept_listing_remote_def kept_file_def

lemmas request_defs =
  listFiles_request_def detail_request_def upload_request_def attach_request_def
  delete_request_def createVectorStore_request_def API_BASE_def authHeaders_def

lemmas client_defs =
  ensureSettings_def fetch_def handleResponse_def res_ok_def optProp_def coalesce_def

subsection \<open>Preconditions\<close>

lemma ensureSettings_ok:
  "apiKey settings \<noteq> [] \<Longrightarrow> vectorStoreId settings \<noteq> [] \<Longrightarrow> ensureSettings settings = Inr ()"
  by (simp add: ensureSettings_def)

lemma trim_blank: "\<forall>c\<in>set s. is_ws c \<Longrightarrow> trim s = []"
  by (auto simp: trim_def dest: set_dropWhileD)

text \<open>
  Claim C8. A question that is empty or made of white space only gets the failure
  \<^verbatim>\<open>Question is empty\<close> from \<open>askQuestion\<close>, whatever the history, the settings and the
  host, and the log of issued requests is returned as it was: no request is issued.
\<close>

theorem askQuestion_blank_question:
  assumes "\<forall>c\<in>set question. is_ws c"
  shows "askQuestion h question chatHistory settings log =
           (Inr (Failure (JStr ''Question is empty'')), log)"
  using assms by (simp add: askQuestion_def trim_blank)

theorem askQuestion_blank_question_witness:
  "askQuestion (fixture_host (always Rejected) []) [CHR 0x20, CHR 0x09] [] fixture_settings []
     = (Inr (Failure (JStr ''Question is empty'')), []) \<and>
   askQuestion (fixture_host (always Rejected) []) [] [] fixture_settings []
     = (Inr (Failure (JStr ''Question is empty'')), [])"
  using askQuestion_blank_question
          [where question = "[CHR 0x20, CHR 0x09]" and h = "fixture_host (always Rejected) []"
             and chatHistory = "[]" and settings = fixture_settings and log = "[]"]
        askQuestion_blank_question
          [where question = "[]" and h = "fixture_host (always Rejected) []"
             and chatHistory = "[]" and settings = fixture_settings and log = "[]"]
  by (simp add: is_ws_def)

subsection \<open>Missing settings\<close>

lemma ensureSettings_missing:
  assumes "apiKey settings = [] \<or> vectorStoreId settings = []"
  shows "\<exists>m. ensureSettings settings = Inl (Error m)"
  using assms by (auto simp: ensureSettings_def)

text \<open>
  Claim C2, as amended. With settings whose API key or vector store id is empty,
  \<open>listFiles\<close>, \<open>uploadFile\<close>, \<open>replaceFile\<close>, \<open>deleteFile\<close> and \<open>askQuestion\<close> return a
  failure with a message and leave the log of issued requests as it was. \<open>createVectorStore\<close>
  throws, before any request, when the API key is empty; an empty vector store id alone
  does not make it throw.
\<close>

theorem missing_settings_fail_without_request:
  assumes "apiKey settings = [] \<or> vectorStoreId settings = []"
  shows "(\<exists>m. listFiles h settings log = (Inr (Failure (JStr m)), log)) \<and>
         (\<exists>m. uploadFile h nextFile settings log = (Inr (Failure (JStr m)), log)) \<and>
         (\<exists>m. replaceFile h fileId nextFile settings log = (Inr (Failure (JStr m)), log)) \<and>
         (\<exists>m. deleteFile h fileId settings log = (Inr (Failure (JStr m)), log)) \<and>
         (\<exists>m. askQuestion h question chatHistory settings log = (Inr (Failure (JStr m)), log)) \<and>
         (apiKey settings = [] \<longrightarrow>
            (\<exists>m. createVectorStore h name settings log = (Inl (Error m), log)))"
proof -
  obtain m where m: "ensureSettings settings = Inl (Error m)"
    using ensureSettings_missing [OF assms] by blast
  have "listFiles h settings log = (Inr (Failure (JStr m)), log)"
    by (simp add: listFiles_def m)
  moreover have up: "uploadFile h nextFile settings log = (Inr (Failure (JStr m)), log)"
    by (simp add: uploadFile_def m)
  moreover have "replaceFile h fileId nextFile settings log = (Inr (Failure (JStr m)), log)"
    by (simp add: replaceFile_def up)
  moreover have "deleteFile h fileId settings log = (Inr (Failure (JStr m)), log)"
    by (simp add: deleteFile_def m)
  moreover have "\<exists>m'. askQuestion h question chatHistory settings log = (Inr (Failure (JStr m')), log)"
    by (simp add: askQuestion_def m)
  moreover have "\<exists>m'. createVectorStore h name settings log = (Inl (Error m'), log)"
    if "apiKey settings = []"
    using that by (simp add: createVectorStore_def)
  ultimately show ?thesis
    by blast
qed

theorem missing_settings_fail_without_request_witness:
  "(\<exists>m. listFiles (fixture_host (always Rejected) []) settings_without_store []
          = (Inr (Failure (JStr m)), [])) \<and>
   (\<exists>m. uploadFile (fixture_host (always Rejected) []) fixture_file settings_without_store []
          = (Inr (Failure (JStr m)), [])) \<and>
   (\<exists>m. replaceFile (fixture_host (always Rejected) []) ''vsf_1'' fixture_file
            settings_without_store []
          = (Inr (Failure (JStr m)), [])) \<and>
   (\<exists>m. deleteFile (fixture_host (always Rejected) []) ''vsf_1'' settings_without_store []
          = (Inr (Failure (JStr m)), [])) \<and>
   (\<exists>m. askQuestion (fixture_host (always Rejected) []) ''hello'' [] settings_without_store []
          = (Inr (Failure (JStr m)), [])) \<and>
   (\<exists>m. createVectorStore (fixture_host (always Rejected) []) ''docs''
            \<lparr>apiKey = [], model = [], vectorStoreId = ''vs_1''\<rparr> []
          = (Inl (Error m), []))"
proof -
  let ?h = "fixture_host (always Rejected) []"
  let ?s = "\<lparr>apiKey = [], model = [], vectorStoreId = ''vs_1''\<rparr>"
  have a: "apiKey settings_without_store = [] \<or> vectorStoreId settings_without_store = []"
    by (simp add: settings_without_store_def)
  have b: "apiKey ?s = [] \<or> vectorStoreId ?s = []"
    by simp
  from missing_settings_fail_without_request
         [OF a, where h = ?h and log = "[]" and nextFile = fixture_file and fileId = "''vsf_1''"
            and question = "''hello''" and chatHistory = "[]" and name = "''docs''"]
       missing_settings_fail_without_request
         [OF b, where h = ?h and log = "[]" and nextFile = fixture_file and fileId = "''vsf_1''"
            and question = "''hello''" and chatHistory = "[]" and name = "''docs''"]
  show ?thesis
    by simp
qed

text \<open>
  Claim C2 as stated fails for \<open>createVectorStore\<close>: with a key and an empty vector store
  id it throws nothing, issues its request and returns the created store.
\<close>

theorem createVectorStore_without_store_id_counterexample:
  "vectorStoreId settings_without_store = [] \<and>
   createVectorStore (fixture_host (always (ok_json created_store)) []) ''docs''
       settings_without_store []
     = (Inr (Success created_store), [createVectorStore_request ''docs'' settings_without_store])"
  by (simp add: createVectorStore_def trim_def is_ws_def fixture_defs client_defs)

subsection \<open>Exceptions that escape\<close>

text \<open>
  Claim C1 does not hold of the code. \<open>handleResponse\<close> awaits \<^verbatim>\<open>res.json()\<close> of a 2xx
  response outside any \<^verbatim>\<open>try\<close>, no operation guards its \<^verbatim>\<open>fetch\<close>, and the fields of a
  parsed body are read without a test for \<^verbatim>\<open>null\<close>: a 2xx response whose body is not
  JSON makes \<open>listFiles\<close> and \<open>deleteFile\<close> throw a SyntaxError, a listing whose
  \<^verbatim>\<open>data\<close> array holds \<^verbatim>\<open>null\<close> makes \<open>listFiles\<close> throw a TypeError, the body \<^verbatim>\<open>null\<close> makes
  \<open>askQuestion\<close> throw a TypeError, and a request that gets no response makes \<open>uploadFile\<close>
  throw the rejection of \<^verbatim>\<open>fetch\<close>.
\<close>

theorem operations_throw_on_unexpected_responses:
  "fst (listFiles (fixture_host (always not_json) []) fixture_settings []) = Inl SyntaxError \<and>
   fst (listFiles (fixture_host (always (ok_json (JObj [(''data'', JArr [JNull])]))) [])
          fixture_settings [])
     = Inl TypeError \<and>
   fst (deleteFile (fixture_host (always not_json) []) ''vsf_1'' fixture_settings [])
     = Inl SyntaxError \<and>
   fst (askQuestion (fixture_host (always (ok_json JNull)) []) ''hello'' [] fixture_settings [])
     = Inl TypeError \<and>
   fst (uploadFile (fixture_host (always Rejected) []) fixture_file fixture_settings [])
     = Inl NetworkError"
  by (simp add: listFiles_def listFiles_item_def association_file_def Promise_all_def
      settle.simps pick_def deleteFile_def askQuestion_def uploadFile_def unwrap_content_def
      trim_def is_ws_def fixture_defs client_defs)

text \<open>
  Claim C5 does not hold of the code either. When the listing request gets no response,
  \<open>listFiles\<close> throws the rejection of \<^verbatim>\<open>fetch\<close> instead of returning a failure; when it is
  answered by a success whose body is not JSON, or is JSON without a \<^verbatim>\<open>data\<close> array,
  \<open>listFiles\<close> throws instead of returning a success. No detail request is issued in any
  of the three cases.
\<close>

theorem listFiles_throws_on_failed_listing:
  "listFiles (fixture_host (always Rejected) []) fixture_settings []
     = (Inl NetworkError, [listFiles_request fixture_settings]) \<and>
   listFiles (fixture_host (always no_content) []) fixture_settings []
     = (Inl SyntaxError, [listFiles_request fixture_settings]) \<and>
   listFiles (fixture_host (always (ok_json (JObj []))) []) fixture_settings []
     = (Inl TypeError, [listFiles_request fixture_settings])"
  by (simp add: listFiles_def fixture_defs client_defs)

text \<open>
  Claim C3 does not hold of the code when the delete throws. Against a remote that
  registers and attaches the new file and answers the delete request with a success
  that has no JSON body, the upload succeeds, the old association is deleted, and
  \<open>replaceFile\<close> throws the SyntaxError of \<^verbatim>\<open>res.json()\<close> instead of returning the upload's
  result; when the delete request gets no response, it throws the rejection of \<^verbatim>\<open>fetch\<close>.
\<close>

theorem replaceFile_throws_when_delete_throws:
  "fst (uploadFile (fixture_host (replace_remote no_content) []) fixture_file fixture_settings [])
     = Inr (Success uploaded_file) \<and>
   fst (replaceFile (fixture_host (replace_remote no_content) []) ''vsf_1'' fixture_file
          fixture_settings [])
     = Inl SyntaxError \<and>
   fst (uploadFile (fixture_host (replace_remote Rejected) []) fixture_file fixture_settings [])
     = Inr (Success uploaded_file) \<and>
   fst (replaceFile (fixture_host (replace_remote Rejected) []) ''vsf_1'' fixture_file
          fixture_settings [])
     = Inl NetworkError"
  by (simp add: replaceFile_def uploadFile_def deleteFile_def fixture_defs
      client_defs request_defs)

text \<open>
  What does hold of \<open>replaceFile\<close>: a failure of the upload is returned as it is, with
  the log the upload leaves (no delete request is added); after a successful upload the
  delete request is issued next, and when \<open>deleteFile\<close> returns, with a success or with a
  failure, the result is the upload's success.
\<close>

theorem replaceFile_returns_upload_result:
  assumes "uploadFile h nextFile settings log = (Inr uploaded, log1)"
  shows "(\<forall>m. uploaded = Failure m \<longrightarrow>
            replaceFile h existingFileId nextFile settings log = (Inr (Failure m), log1)) \<and>
         (\<forall>kf deleted log2.
            uploaded = Success kf \<and>
            deleteFile h existingFileId settings log1 = (Inr deleted, log2) \<longrightarrow>
            replaceFile h existingFileId nextFile settings log = (Inr (Success kf), log2) \<and>
            log2 = log1 @ [delete_request existingFileId settings])"
proof (intro conjI allI impI)
  fix m
  assume "uploaded = Failure m"
  then show "replaceFile h existingFileId nextFile settings log = (Inr (Failure m), log1)"
    using assms by (simp add: replaceFile_def)
next
  fix kf deleted log2
  assume a: "uploaded = Success kf \<and>
    deleteFile h existingFileId settings log1 = (Inr deleted, log2)"
  then show "replaceFile h existingFileId nextFile settings log = (Inr (Success kf), log2)"
    using assms by (simp add: replaceFile_def)
  have "ensureSettings settings = Inr ()"
    using assms a by (auto simp: uploadFile_def split: sum.splits)
  then show "log2 = log1 @ [delete_request existingFileId settings]"
    using a by (auto simp: deleteFile_def fetch_def split: sum.splits ApiResult.splits)
qed

theorem replaceFile_returns_upload_result_witness:
  "replaceFile (fixture_host (always unauthorized) []) ''vsf_1'' fixture_file fixture_settings []
     = (Inr (Failure (JStr ''bad key'')), [upload_request fixture_file fixture_settings]) \<and>
   replaceFile (fixture_host (replace_remote not_found) []) ''vsf_1'' fixture_file fixture_settings []
     = (Inr (Success uploaded_file),
        [upload_request fixture_file fixture_settings,
         attach_request fixture_settings (JStr ''file-2''),
         delete_request ''vsf_1'' fixture_settings])"
proof -
  let ?h = "fixture_host (replace_remote not_found) []"
  let ?log1 = "[upload_request fixture_file fixture_settings,
                attach_request fixture_settings (JStr ''file-2'')] :: int request list"
  have u1: "uploadFile (fixture_host (always unauthorized) []) fixture_file fixture_settings []
      = (Inr (Failure (JStr ''bad key'')), [upload_request fixture_file fixture_settings])"
    by (simp add: uploadFile_def fixture_defs client_defs)
  have u2: "uploadFile ?h fixture_file fixture_settings [] = (Inr (Success uploaded_file), ?log1)"
    by (simp add: uploadFile_def fixture_defs client_defs request_defs)
  have d: "deleteFile ?h ''vsf_1'' fixture_settings ?log1
      = (Inr (Failure (JStr ''No such file'')), ?log1 @ [delete_request ''vsf_1'' fixture_settings])"
    by (simp add: deleteFile_def fixture_defs client_defs request_defs)
  show ?thesis
    using replaceFile_returns_upload_result [OF u1, of "''vsf_1''"]
      replaceFile_returns_upload_result [OF u2, of "''vsf_1''"] d
    by simp
qed

subsection \<open>Promise.all\<close>

text \<open>
  Whatever the order in which they settle, promises that are all fulfilled give their
  values in the order of the promises; and \<open>Promise_all\<close> is fulfilled only then.
\<close>

lemma settle_fulfilled:
  assumes "distinct (map fst pending)"
    and "\<forall>(i, p)\<in>set pending. i < length vals \<and> (\<exists>v. p = Inr v)"
  shows "\<exists>ws. settle cs pending vals = Inr ws \<and> length ws = length vals \<and>
           (\<forall>(i, p)\<in>set pending. p = Inr (ws ! i)) \<and>
           (\<forall>j<length vals. j \<notin> fst ` set pending \<longrightarrow> ws ! j = the (vals ! j))"
  using assms
proof (induction cs pending vals rule: settle.induct)
  case (1 cs pending vals)
  show ?case
  proof (cases "pending = []")
    case True
    then show ?thesis
      by (simp add: settle.simps)
  next
    case False
    define k where "k = pick cs pending"
    define rest where "rest = take k pending @ drop (Suc k) pending"
    have k: "k < length pending"
      using False by (simp add: k_def pick_less)
    obtain i p where ip: "pending ! k = (i, p)"
      by (cases "pending ! k")
    have split: "pending = take k pending @ (i, p) # drop (Suc k) pending"
      using id_take_nth_drop [OF k] ip by simp
    have mem: "(i, p) \<in> set pending"
      using k ip nth_mem by fastforce
    then obtain v where v: "p = Inr v" and i: "i < length vals"
      using "1.prems"(2) by auto
    have set_pending: "set pending = insert (i, p) (set rest)"
      by (subst split) (auto simp: rest_def)
    have "distinct (map fst (take k pending @ (i, p) # drop (Suc k) pending))"
      using "1.prems"(1) split by simp
    then have dist_rest: "distinct (map fst rest)" and fresh: "i \<notin> fst ` set rest"
      by (auto simp: rest_def)
    have pre: "\<forall>(j, q)\<in>set rest. j < length (vals[i := Some v]) \<and> (\<exists>w. q = Inr w)"
      using "1.prems"(2) set_pending by auto
    from "1.IH" [OF False, of i "Inr v" v] ip v dist_rest pre
    obtain ws where ws: "settle (tl cs) rest (vals[i := Some v]) = Inr ws"
      and len: "length ws = length vals"
      and old: "\<forall>(j, q)\<in>set rest. q = Inr (ws ! j)"
      and keep: "\<forall>j<length vals. j \<notin> fst ` set rest \<longrightarrow> ws ! j = the (vals[i := Some v] ! j)"
      by (auto simp: k_def rest_def)
    have step: "settle cs pending vals = Inr ws"
      using False ip v ws by (subst settle.simps) (simp add: k_def rest_def)
    have at_i: "ws ! i = v"
      using keep i fresh by simp
    have "\<forall>(j, q)\<in>set pending. q = Inr (ws ! j)"
      using old at_i v set_pending by auto
    moreover have "\<forall>j<length vals. j \<notin> fst ` set pending \<longrightarrow> ws ! j = the (vals ! j)"
    proof (intro allI impI)
      fix j
      assume j: "j < length vals" and out: "j \<notin> fst ` set pending"
      then have "j \<notin> fst ` set rest" and "j \<noteq> i"
        using set_pending by auto
      then show "ws ! j = the (vals ! j)"
        using keep j by simp
    qed
    ultimately show ?thesis
      using step len by blast
  qed
qed

lemma settle_Inr_pending:
  "settle cs pending vals = Inr ws \<Longrightarrow> (i, p) \<in> set pending \<Longrightarrow> \<exists>v. p = Inr v"
proof (induction cs pending vals arbitrary: i p rule: settle.induct)
  case (1 cs pending vals)
  from "1.prems"(2) have ne: "pending \<noteq> []"
    by auto
  define k where "k = pick cs pending"
  have k: "k < length pending"
    using ne by (simp add: k_def pick_less)
  obtain j q where jq: "pending ! k = (j, q)"
    by (cases "pending ! k")
  have split: "pending = take k pending @ (j, q) # drop (Suc k) pending"
    using id_take_nth_drop [OF k] jq by simp
  show ?case
  proof (cases q)
    case (Inl e)
    then have "settle cs pending vals = Inl e"
      using ne jq by (subst settle.simps) (simp add: k_def)
    then show ?thesis
      using "1.prems"(1) by simp
  next
    case (Inr v)
    then have step: "settle cs pending vals =
        settle (tl cs) (take k pending @ drop (Suc k) pending) (vals[j := Some v])"
      using ne jq by (subst settle.simps) (simp add: k_def)
    have "(i, p) = (j, q) \<or> (i, p) \<in> set (take k pending @ drop (Suc k) pending)"
      using "1.prems"(2) by (subst (asm) split) auto
    then show ?thesis
    proof
      assume "(i, p) = (j, q)"
      then show ?thesis
        using Inr by simp
    next
      assume "(i, p) \<in> set (take k pending @ drop (Suc k) pending)"
      then show ?thesis
        using "1.IH" [OF ne, of j "Inr v" v ] jq Inr step "1.prems"(1)
        by (auto simp: k_def)
    qed
  qed
qed

lemma zip_upt_mem:
  assumes "i < length ps"
  shows "(i, ps ! i) \<in> set (zip [0..<length ps] ps)"
proof -
  have "zip [0..<length ps] ps ! i = (i, ps ! i)"
    using assms by simp
  moreover have "i < length (zip [0..<length ps] ps)"
    using assms by simp
  ultimately show ?thesis
    by (metis nth_mem)
qed

lemma Promise_all_fulfilled: "Promise_all cs (map Inr vs) = Inr vs"
proof -
  let ?n = "length vs"
  let ?pending = "zip [0..<?n] (map Inr vs :: (exn + 'a) list)"
  have "distinct (map fst ?pending)"
    by simp
  moreover have "\<forall>(i, p)\<in>set ?pending. i < length (replicate ?n (None :: 'a option)) \<and> (\<exists>v. p = Inr v)"
    by (auto simp: set_zip)
  ultimately obtain ws where ws: "settle cs ?pending (replicate ?n None) = Inr ws"
    and len: "length ws = ?n"
    and at: "\<forall>(i, p)\<in>set ?pending. p = Inr (ws ! i)"
    using settle_fulfilled [of ?pending "replicate ?n None" cs] by auto
  have "ws ! i = vs ! i" if "i < ?n" for i
  proof -
    have "(i, Inr (vs ! i)) \<in> set ?pending"
      using that zip_upt_mem [of i "map Inr vs"] by simp
    then show ?thesis
      using at by auto
  qed
  then have "ws = vs"
    using len by (simp add: list_eq_iff_nth_eq)
  then show ?thesis
    using ws by (simp add: Promise_all_def)
qed

lemma Promise_all_Inr:
  assumes "Promise_all cs ps = Inr ws"
  shows "ps = map Inr ws"
proof -
  have "\<exists>v. p = Inr v" if "p \<in> set ps" for p
  proof -
    from that obtain i where "i < length ps" and "ps ! i = p"
      by (auto simp: in_set_conv_nth)
    then have "(i, p) \<in> set (zip [0..<length ps] ps)"
      using zip_upt_mem [of i ps] by simp
    then show ?thesis
      using assms settle_Inr_pending unfolding Promise_all_def by fastforce
  qed
  then have "\<forall>p\<in>set ps. p = Inr (projr p)"
    by fastforce
  then have "ps = map Inr (map projr ps)"
    by (induction ps) simp_all
  then obtain vs where vs: "ps = map Inr vs"
    by (rule that)
  then have "ws = vs"
    using assms Promise_all_fulfilled [of cs vs] by simp
  then show ?thesis
    using vs by simp
qed

subsection \<open>The callback of List Files\<close>

lemma map_async_Cons:
  "map_async f (x # xs) log =
     (fst (f x log) # fst (map_async f xs (snd (f x log))),
      snd (map_async f xs (snd (f x log))))"
  by (simp split: prod.splits)

lemma map_async_length: "length (fst (map_async f xs log)) = length xs"
  by (induction xs arbitrary: log) (simp_all add: map_async_Cons del: map_async.simps(2))

lemma item_log_0: "item_log f xs log 0 = log"
  by (simp add: item_log_def)

lemma item_log_Suc: "item_log f (x # xs) log (Suc i) = item_log f xs (snd (f x log)) i"
  by (simp add: item_log_def map_async_Cons del: map_async.simps(2))

lemma map_async_nth:
  "i < length xs \<Longrightarrow> fst (map_async f xs log) ! i = fst (f (xs ! i) (item_log f xs log i))"
proof (induction xs arbitrary: i log)
  case Nil
  then show ?case by simp
next
  case (Cons x xs)
  show ?case
  proof (cases i)
    case 0
    then show ?thesis
      by (simp add: item_log_0 map_async_Cons del: map_async.simps(2))
  next
    case (Suc j)
    then have "j < length xs"
      using Cons.prems by simp
    then show ?thesis
      using Cons.IH [of j "snd (f x log)"] Suc
      by (simp add: item_log_Suc map_async_Cons del: map_async.simps(2))
  qed
qed

lemma listFiles_item_returns:
  "\<not> nullish item \<Longrightarrow> \<exists>file. fst (listFiles_item h settings item log) = Inr file"
  by (cases item)
    (auto simp: listFiles_item_def association_file_def
      split: sum.splits prod.splits option.splits)

lemma enrich_frame:
  "enrich file detail = Inr file' \<Longrightarrow> kf_id file' = kf_id file \<and> kf_status file' = kf_status file"
  by (auto simp: enrich_def split: sum.splits)

lemma listFiles_item_frame:
  assumes "fst (listFiles_item h settings item log) = Inr file"
  shows "getProp item ''id'' = Inr (kf_id file) \<and>
         kf_status file = coalesce (optProp item ''status'') (JStr ''unknown'')"
proof -
  obtain base where base: "association_file h item log = Inr base"
    using assms by (auto simp: listFiles_item_def split: sum.splits)
  then have b: "getProp item ''id'' = Inr (kf_id base)"
    "kf_status base = coalesce (optProp item ''status'') (JStr ''unknown'')"
    by (auto simp: association_file_def split: sum.splits)
  have "kf_id file = kf_id base \<and> kf_status file = kf_status base"
    using assms base
    by (auto simp: listFiles_item_def dest: enrich_frame
        split: sum.splits prod.splits option.splits if_splits)
  then show ?thesis
    using b by simp
qed

lemma listFiles_item_keeps_association:
  assumes "detail_answer h settings item log = Some a" and "unusable a"
  shows "fst (listFiles_item h settings item log) = association_file h item log"
  using assms
  by (auto simp: listFiles_item_def detail_answer_def unusable_def fetch_def
      split: sum.splits fetch_result.splits)

lemma listFiles_item_choices:
  "listFiles_item (h\<lparr>settle_choices := cs\<rparr>) settings = listFiles_item h settings"
  by (rule ext)+
    (auto simp: listFiles_item_def association_file_def fetch_def
      split: sum.splits prod.splits option.splits fetch_result.splits)

lemma listFiles_listing:
  assumes "apiKey settings \<noteq> []" and "vectorStoreId settings \<noteq> []"
    and "remote h log (listFiles_request settings) = Responded res"
    and "res_ok res" and "json res = Some parsed"
    and "getProp parsed ''data'' = Inr (JArr items)"
  shows "fst (listFiles h settings log) =
           (case Promise_all (settle_choices h)
                   (fst (map_async (listFiles_item h settings) items
                           (log @ [listFiles_request settings]))) of
              Inl e \<Rightarrow> Inl e
            | Inr files \<Rightarrow> Inr (Success files))"
  using assms
  by (simp add: listFiles_def ensureSettings_ok fetch_def handleResponse_def
      split: prod.splits sum.splits)

lemma listFiles_success_response:
  assumes "fst (listFiles h settings log) = Inr (Success files)"
    and "remote h log (listFiles_request settings) = Responded res"
  shows "apiKey settings \<noteq> [] \<and> vectorStoreId settings \<noteq> [] \<and> res_ok res"
  using assms
  by (auto simp: listFiles_def ensureSettings_def fetch_def handleResponse_def Let_def
      split: if_splits sum.splits prod.splits option.splits)

lemma listFiles_success_items:
  assumes "fst (listFiles h settings log) = Inr (Success files)"
    and "remote h log (listFiles_request settings) = Responded res"
    and "json res = Some parsed" and "getProp parsed ''data'' = Inr (JArr items)"
  shows "fst (map_async (listFiles_item h settings) items (log @ [listFiles_request settings]))
           = map Inr files"
proof -
  have pre: "apiKey settings \<noteq> []" "vectorStoreId settings \<noteq> []" "res_ok res"
    using listFiles_success_response [OF assms(1,2)] by simp_all
  have "\<exists>cs. Promise_all cs
            (fst (map_async (listFiles_item h settings) items
                    (log @ [listFiles_request settings]))) = Inr files"
    using assms(1) listFiles_listing [OF pre(1,2) assms(2) pre(3) assms(3,4)]
    by (auto split: sum.splits)
  then show ?thesis
    using Promise_all_Inr by blast
qed

subsection \<open>List Files\<close>

lemma listing_eval:
  "fst (listFiles (fixture_host listing_remote [1]) fixture_settings []) = Inr (Success listing_files)"
  by (simp add: listFiles_def listFiles_item_def association_file_def enrich_def
      Promise_all_def settle.simps pick_def fixture_defs request_defs client_defs)

text \<open>
  Claim C6. When \<open>listFiles\<close> succeeds, the returned files are as many as the entries of
  the \<^verbatim>\<open>data\<close> array of the listing response, and the \<open>i\<close>-th file is what the callback
  returns for the \<open>i\<close>-th entry. The order in which the detail fetches settle plays no
  part: with any other order the result is the same.
\<close>

theorem listFiles_preserves_listing_order:
  assumes "fst (listFiles h settings log) = Inr (Success files)"
    and "remote h log (listFiles_request settings) = Responded res"
    and "json res = Some parsed" and "getProp parsed ''data'' = Inr (JArr items)"
  shows "length files = length items \<and>
         (\<forall>i<length items.
            fst (listFiles_item h settings (items ! i)
                   (item_log (listFiles_item h settings) items
                      (log @ [listFiles_request settings]) i))
              = Inr (files ! i)) \<and>
         (\<forall>cs. fst (listFiles (h\<lparr>settle_choices := cs\<rparr>) settings log) = Inr (Success files))"
proof -
  let ?f = "listFiles_item h settings"
  let ?log1 = "log @ [listFiles_request settings]"
  have items: "fst (map_async ?f items ?log1) = map Inr files"
    using listFiles_success_items [OF assms] .
  have len: "length files = length items"
    using map_async_length [of ?f items ?log1] items by simp
  have nth: "fst (?f (items ! i) (item_log ?f items ?log1 i)) = Inr (files ! i)"
    if "i < length items" for i
    using map_async_nth [OF that, of ?f ?log1] items that len by simp
  have pre: "apiKey settings \<noteq> []" "vectorStoreId settings \<noteq> []" "res_ok res"
    using listFiles_success_response [OF assms(1,2)] by simp_all
  have "fst (listFiles (h\<lparr>settle_choices := cs\<rparr>) settings log) = Inr (Success files)" for cs
  proof -
    have "remote (h\<lparr>settle_choices := cs\<rparr>) log (listFiles_request settings) = Responded res"
      using assms(2) by simp
    from listFiles_listing [OF pre(1,2) this pre(3) assms(3,4)]
    show ?thesis
      by (simp add: listFiles_item_choices items Promise_all_fulfilled)
  qed
  then show ?thesis
    using len nth by blast
qed

theorem listFiles_preserves_listing_order_witness:
  "length listing_files = 2 \<and>
   fst (listFiles_item (fixture_host listing_remote [1]) fixture_settings
          (JObj [(''id'', JStr ''vsf_1''), (''file_id'', JStr ''file-1''),
                 (''status'', JStr ''completed'')])
          [listFiles_request fixture_settings])
     = Inr (listing_files ! 0) \<and>
   fst (listFiles_item (fixture_host listing_remote [1]) fixture_settings
          (JObj [(''id'', JStr ''vsf_2'')])
          [listFiles_request fixture_settings, detail_request fixture_settings ''file-1''])
     = Inr (listing_files ! 1) \<and>
   (\<forall>cs. fst (listFiles (fixture_host listing_remote [1]\<lparr>settle_choices := cs\<rparr>) fixture_settings [])
           = Inr (Success listing_files))"
proof -
  let ?h = "fixture_host listing_remote [1]"
  let ?items = "[JObj [(''id'', JStr ''vsf_1''), (''file_id'', JStr ''file-1''),
                       (''status'', JStr ''completed'')],
                 JObj [(''id'', JStr ''vsf_2'')]] :: int jsval list"
  have r: "remote ?h [] (listFiles_request fixture_settings)
             = Responded \<lparr>status = 200, statusText = ''OK'', json = Some listing_body\<rparr>"
    by (simp add: fixture_defs request_defs)
  have j: "json \<lparr>status = 200, statusText = ''OK'', json = Some listing_body\<rparr> = Some listing_body"
    by simp
  have d: "getProp listing_body ''data'' = Inr (JArr ?items)"
    by (simp add: listing_body_def)
  have l0: "item_log (listFiles_item ?h fixture_settings) ?items
              [listFiles_request fixture_settings] 0 = [listFiles_request fixture_settings]"
    by (simp add: item_log_def)
  have l1: "item_log (listFiles_item ?h fixture_settings) ?items
              [listFiles_request fixture_settings] (Suc 0)
            = [listFiles_request fixture_settings, detail_request fixture_settings ''file-1'']"
    by (simp add: item_log_def listFiles_item_def association_file_def enrich_def
        fixture_defs request_defs client_defs)
  show ?thesis
    using listFiles_preserves_listing_order [OF listing_eval r j d] l0 l1
    by (simp add: listing_files_def All_less_Suc numeral_2_eq_2)
qed


text \<open>
  Claim C10. When \<open>listFiles\<close> succeeds, the \<^verbatim>\<open>id\<close> of the \<open>i\<close>-th file is the \<^verbatim>\<open>id\<close> of the
  \<open>i\<close>-th listed association and its \<^verbatim>\<open>status\<close> is the association's (\<^verbatim>\<open>unknown\<close> when it
  has none), whatever the remote answers to the detail requests: the detail overwrites
  the filename, the bytes, the metadata and the creation time only (\<open>enrich_frame\<close>).
\<close>

theorem listFiles_keeps_id_and_status:
  assumes "fst (listFiles h settings log) = Inr (Success files)"
    and "remote h log (listFiles_request settings) = Responded res"
    and "json res = Some parsed" and "getProp parsed ''data'' = Inr (JArr items)"
  shows "length files = length items \<and>
         (\<forall>i<length items.
            getProp (items ! i) ''id'' = Inr (kf_id (files ! i)) \<and>
            kf_status (files ! i) = coalesce (optProp (items ! i) ''status'') (JStr ''unknown''))"
proof -
  let ?f = "listFiles_item h settings"
  let ?log1 = "log @ [listFiles_request settings]"
  have items: "fst (map_async ?f items ?log1) = map Inr files"
    using listFiles_success_items [OF assms] .
  have len: "length files = length items"
    using map_async_length [of ?f items ?log1] items by simp
  have "getProp (items ! i) ''id'' = Inr (kf_id (files ! i)) \<and>
        kf_status (files ! i) = coalesce (optProp (items ! i) ''status'') (JStr ''unknown'')"
    if "i < length items" for i
  proof -
    have "fst (?f (items ! i) (item_log ?f items ?log1 i)) = Inr (files ! i)"
      using map_async_nth [OF that, of ?f ?log1] items that len by simp
    then show ?thesis
      by (rule listFiles_item_frame)
  qed
  then show ?thesis
    using len by blast
qed

theorem listFiles_keeps_id_and_status_witness:
  "fst (listFiles (fixture_host listing_remote [1]) fixture_settings [])
     = Inr (Success listing_files) \<and>
   length listing_files = 2 \<and>
   getProp (JObj [(''id'', JStr ''vsf_1''), (''file_id'', JStr ''file-1''),
                  (''status'', JStr ''completed'')]) ''id''
     = Inr (kf_id (listing_files ! 0)) \<and>
   kf_status (listing_files ! 0) = JStr ''completed'' \<and>
   getProp (JObj [(''id'', JStr ''vsf_2'') :: string \<times> int jsval]) ''id''
     = Inr (kf_id (listing_files ! 1)) \<and>
   kf_status (listing_files ! 1) = JStr ''unknown''"
proof -
  let ?h = "fixture_host listing_remote [1]"
  let ?items = "[JObj [(''id'', JStr ''vsf_1''), (''file_id'', JStr ''file-1''),
                       (''status'', JStr ''completed'')],
                 JObj [(''id'', JStr ''vsf_2'')]] :: int jsval list"
  have r: "remote ?h [] (listFiles_request fixture_settings)
             = Responded \<lparr>status = 200, statusText = ''OK'', json = Some listing_body\<rparr>"
    by (simp add: fixture_defs request_defs)
  have j: "json \<lparr>status = 200, statusText = ''OK'', json = Some listing_body\<rparr> = Some listing_body"
    by simp
  have d: "getProp listing_body ''data'' = Inr (JArr ?items)"
    by (simp add: listing_body_def)
  show ?thesis
    using listFiles_keeps_id_and_status [OF listing_eval r j d] listing_eval
    by (simp add: All_less_Suc numeral_2_eq_2 optProp_def coalesce_def)
qed

lemma association_file_fields:
  assumes "\<not> nullish item"
  shows "association_file h item log =
           Inr \<lparr>kf_id = optProp item ''id'',
                kf_filename =
                  coalesce (optProp item ''filename'')
                    (coalesce (optProp item ''file_id'') (optProp item ''id'')),
                kf_bytes = coalesce (optProp item ''usage_bytes'') (JNum 0),
                kf_status = coalesce (optProp item ''status'') (JStr ''unknown''),
                kf_created_at = coalesce (optProp item ''created_at'') (JNum (Date_now h log)),
                kf_metadata = Some (coalesce (optProp item ''metadata'') (JObj []))\<rparr>"
  using assms by (cases item) (simp_all add: association_file_def optProp_def)

text \<open>
  What does hold of \<open>listFiles\<close> once the listing request is answered. When the status
  is not 2xx, \<open>listFiles\<close> returns the failure that \<open>handleResponse\<close> extracts from the
  response, after that one request. When the status is 2xx and the body holds a
  \<^verbatim>\<open>data\<close> array without \<^verbatim>\<open>null\<close> entries, \<open>listFiles\<close> returns a success with one file
  for each entry whatever happens to the detail fetches, and for each entry whose detail
  fetch fails (no response, a status outside 2xx) or has a body that does not parse,
  every field of the file is the listed one: the \<^verbatim>\<open>id\<close>, the \<^verbatim>\<open>filename\<close> (else the
  \<^verbatim>\<open>file_id\<close>, else the \<^verbatim>\<open>id\<close>), the \<^verbatim>\<open>usage_bytes\<close> (else 0), the \<^verbatim>\<open>status\<close> (else
  \<^verbatim>\<open>unknown\<close>), the \<^verbatim>\<open>created_at\<close> (else the clock) and the \<^verbatim>\<open>metadata\<close> (else \<^verbatim>\<open>{}\<close>).
\<close>

theorem listFiles_keeps_listed_fields:
  assumes "apiKey settings \<noteq> []" and "vectorStoreId settings \<noteq> []"
    and "remote h log (listFiles_request settings) = Responded res"
  shows "(\<not> res_ok res \<longrightarrow>
            (\<exists>m. handleResponse res = Inr (Failure m) \<and>
                 listFiles h settings log = (Inr (Failure m), log @ [listFiles_request settings]))) \<and>
         (res_ok res \<and> json res = Some parsed \<and> getProp parsed ''data'' = Inr (JArr items) \<and>
          (\<forall>item\<in>set items. \<not> nullish item) \<longrightarrow>
            (\<exists>files. fst (listFiles h settings log) = Inr (Success files) \<and>
               length files = length items \<and>
               (\<forall>i<length items. \<forall>a lg.
                  lg = item_log (listFiles_item h settings) items
                         (log @ [listFiles_request settings]) i \<and>
                  detail_answer h settings (items ! i) lg = Some a \<and> unusable a \<longrightarrow>
                  files ! i =
                    \<lparr>kf_id = optProp (items ! i) ''id'',
                     kf_filename =
                       coalesce (optProp (items ! i) ''filename'')
                         (coalesce (optProp (items ! i) ''file_id'') (optProp (items ! i) ''id'')),
                     kf_bytes = coalesce (optProp (items ! i) ''usage_bytes'') (JNum 0),
                     kf_status = coalesce (optProp (items ! i) ''status'') (JStr ''unknown''),
                     kf_created_at =
                       coalesce (optProp (items ! i) ''created_at'') (JNum (Date_now h lg)),
                     kf_metadata = Some (coalesce (optProp (items ! i) ''metadata'') (JObj []))\<rparr>)))"
proof (intro conjI impI)
  assume "\<not> res_ok res"
  then obtain m where m: "handleResponse res = Inr (Failure m)"
    by (simp add: handleResponse_def Let_def)
  then have "listFiles h settings log = (Inr (Failure m), log @ [listFiles_request settings])"
    using assms by (simp add: listFiles_def ensureSettings_ok fetch_def)
  then show "\<exists>m. handleResponse res = Inr (Failure m) \<and>
      listFiles h settings log = (Inr (Failure m), log @ [listFiles_request settings])"
    using m by blast
next
  let ?f = "listFiles_item h settings"
  let ?log1 = "log @ [listFiles_request settings]"
  assume a: "res_ok res \<and> json res = Some parsed \<and> getProp parsed ''data'' = Inr (JArr items) \<and>
    (\<forall>item\<in>set items. \<not> nullish item)"
  define ps where "ps = fst (map_async ?f items ?log1)"
  have len: "length ps = length items"
    by (simp add: ps_def map_async_length)
  have nth: "ps ! i = fst (?f (items ! i) (item_log ?f items ?log1 i))" if "i < length items" for i
    using map_async_nth [OF that] by (simp add: ps_def)
  have "\<forall>p\<in>set ps. Inr (projr p) = p"
  proof
    fix p
    assume "p \<in> set ps"
    then obtain i where i: "i < length items" and p: "p = ps ! i"
      using len by (auto simp: in_set_conv_nth)
    then have "\<not> nullish (items ! i)"
      using a by simp
    from listFiles_item_returns [OF this] obtain kf where
      "fst (?f (items ! i) (item_log ?f items ?log1 i)) = Inr kf"
      by blast
    then show "Inr (projr p) = p"
      using nth [OF i] p by simp
  qed
  then have "map Inr (map projr ps) = ps"
    by (induction ps) simp_all
  then obtain files where files: "map Inr files = ps"
    by blast
  have "Promise_all (settle_choices h) (map Inr files) = Inr files"
    by (rule Promise_all_fulfilled)
  then have ok: "fst (listFiles h settings log) = Inr (Success files)"
    using listFiles_listing [OF assms(1,2,3), of parsed items] a by (simp add: files ps_def)
  have flen: "length files = length items"
    using files len by (metis length_map)
  have keep: "files ! i =
                    \<lparr>kf_id = optProp (items ! i) ''id'',
                     kf_filename =
                       coalesce (optProp (items ! i) ''filename'')
                         (coalesce (optProp (items ! i) ''file_id'') (optProp (items ! i) ''id'')),
                     kf_bytes = coalesce (optProp (items ! i) ''usage_bytes'') (JNum 0),
                     kf_status = coalesce (optProp (items ! i) ''status'') (JStr ''unknown''),
                     kf_created_at =
                       coalesce (optProp (items ! i) ''created_at'') (JNum (Date_now h lg)),
                     kf_metadata = Some (coalesce (optProp (items ! i) ''metadata'') (JObj []))\<rparr>"
    if i: "i < length items"
      and lg: "lg = item_log ?f items ?log1 i"
      and d: "detail_answer h settings (items ! i) lg = Some a'" "unusable a'" for i a' lg
  proof -
    have "ps ! i = map Inr files ! i"
      by (simp only: files)
    also have "\<dots> = Inr (files ! i)"
      using i flen by simp
    finally have "ps ! i = Inr (files ! i)" .
    then have "Inr (files ! i) = association_file h (items ! i) lg"
      using nth [OF i] listFiles_item_keeps_association [OF d] lg by simp
    moreover have "\<not> nullish (items ! i)"
      using a i by simp
    ultimately show ?thesis
      using association_file_fields [of "items ! i" h lg] by simp
  qed
  show "\<exists>files. fst (listFiles h settings log) = Inr (Success files) \<and>
      length files = length items \<and>
      (\<forall>i<length items. \<forall>a lg.
         lg = item_log ?f items ?log1 i \<and>
         detail_answer h settings (items ! i) lg = Some a \<and> unusable a \<longrightarrow>
         files ! i =
                    \<lparr>kf_id = optProp (items ! i) ''id'',
                     kf_filename =
                       coalesce (optProp (items ! i) ''filename'')
                         (coalesce (optProp (items ! i) ''file_id'') (optProp (items ! i) ''id'')),
                     kf_bytes = coalesce (optProp (items ! i) ''usage_bytes'') (JNum 0),
                     kf_status = coalesce (optProp (items ! i) ''status'') (JStr ''unknown''),
                     kf_created_at =
                       coalesce (optProp (items ! i) ''created_at'') (JNum (Date_now h lg)),
                     kf_metadata = Some (coalesce (optProp (items ! i) ''metadata'') (JObj []))\<rparr>)"
  proof (rule exI [of _ files], intro conjI allI impI)
    show "fst (listFiles h settings log) = Inr (Success files)"
      by (rule ok)
    show "length files = length items"
      by (rule flen)
  next
    fix i a' lg
    assume i: "i < length items"
      and c: "lg = item_log ?f items ?log1 i \<and>
        detail_answer h settings (items ! i) lg = Some a' \<and> unusable a'"
    from c have c1: "lg = item_log ?f items ?log1 i"
      by (rule conjunct1)
    from c have c2: "detail_answer h settings (items ! i) lg = Some a'"
      by (rule conjunct1 [OF conjunct2])
    from c have c3: "unusable a'"
      by (rule conjunct2 [OF conjunct2])
    from keep [OF i c1 c2 c3]
    show "files ! i =
                    \<lparr>kf_id = optProp (items ! i) ''id'',
                     kf_filename =
                       coalesce (optProp (items ! i) ''filename'')
                         (coalesce (optProp (items ! i) ''file_id'') (optProp (items ! i) ''id'')),
                     kf_bytes = coalesce (optProp (items ! i) ''usage_bytes'') (JNum 0),
                     kf_status = coalesce (optProp (items ! i) ''status'') (JStr ''unknown''),
                     kf_created_at =
                       coalesce (optProp (items ! i) ''created_at'') (JNum (Date_now h lg)),
                     kf_metadata = Some (coalesce (optProp (items ! i) ''metadata'') (JObj []))\<rparr>" .
  qed
qed

theorem listFiles_keeps_listed_fields_witness:
  "listFiles (fixture_host (always unauthorized) []) fixture_settings []
     = (Inr (Failure (JStr ''bad key'')), [listFiles_request fixture_settings]) \<and>
   fst (listFiles (fixture_host kept_listing_remote []) fixture_settings [])
     = Inr (Success [kept_file])"
proof -
  let ?h = "fixture_host kept_listing_remote []"
  let ?item = "JObj [(''id'', JStr ''vsf_3''), (''file_id'', JStr ''file-3''),
                     (''filename'', JStr ''notes.md''), (''usage_bytes'', JNum 2048),
                     (''status'', JStr ''completed''), (''created_at'', JNum 1699999999),
                     (''metadata'', JObj [(''team'', JStr ''docs'')])] :: int jsval"
  have s: "apiKey fixture_settings \<noteq> []" "vectorStoreId fixture_settings \<noteq> []"
    by (simp_all add: fixture_settings_def)
  have r1: "remote (fixture_host (always unauthorized) []) [] (listFiles_request fixture_settings)
              = Responded \<lparr>status = 401, statusText = ''Unauthorized'',
                  json = Some (JObj [(''error'', JObj [(''message'', JStr ''bad key'')])])\<rparr>"
    by (simp add: fixture_defs)
  have r2: "remote ?h [] (listFiles_request fixture_settings)
              = Responded \<lparr>status = 200, statusText = ''OK'', json = Some kept_listing_body\<rparr>"
    by (simp add: fixture_defs request_defs)
  have d: "getProp kept_listing_body ''data'' = Inr (JArr [?item])"
    by (simp add: kept_listing_body_def)
  have a0: "detail_answer ?h fixture_settings ?item [listFiles_request fixture_settings]
              = Some (Responded \<lparr>status = 500, statusText = ''Internal Server Error'',
                                    json = None\<rparr>)"
    by (simp add: detail_answer_def fixture_defs request_defs client_defs)
  have u: "unusable (Responded \<lparr>status = 500, statusText = ''Internal Server Error'',
                                  json = None\<rparr> :: int fetch_result)"
    by (simp add: unusable_def res_ok_def)
  have first: "listFiles (fixture_host (always unauthorized) []) fixture_settings []
      = (Inr (Failure (JStr ''bad key'')), [listFiles_request fixture_settings])"
    using listFiles_keeps_listed_fields [OF s r1]
    by (simp add: res_ok_def handleResponse_def optProp_def coalesce_def)
  have "res_ok \<lparr>status = 200, statusText = ''OK'', json = Some kept_listing_body\<rparr> \<and>
      json \<lparr>status = 200, statusText = ''OK'', json = Some kept_listing_body\<rparr>
        = Some kept_listing_body \<and>
      getProp kept_listing_body ''data'' = Inr (JArr [?item]) \<and>
      (\<forall>item\<in>set [?item]. \<not> nullish item)"
    using d by (simp add: res_ok_def)
  with listFiles_keeps_listed_fields [OF s r2, of kept_listing_body "[?item]"]
  obtain files where f: "fst (listFiles ?h fixture_settings []) = Inr (Success files)"
    and len: "length files = length [?item]"
    and keep: "\<forall>i<length [?item]. \<forall>a lg.
        lg = item_log (listFiles_item ?h fixture_settings) [?item]
               ([] @ [listFiles_request fixture_settings]) i \<and>
        detail_answer ?h fixture_settings ([?item] ! i) lg = Some a \<and> unusable a \<longrightarrow>
        files ! i =
          \<lparr>kf_id = optProp ([?item] ! i) ''id'',
           kf_filename =
             coalesce (optProp ([?item] ! i) ''filename'')
               (coalesce (optProp ([?item] ! i) ''file_id'') (optProp ([?item] ! i) ''id'')),
           kf_bytes = coalesce (optProp ([?item] ! i) ''usage_bytes'') (JNum 0),
           kf_status = coalesce (optProp ([?item] ! i) ''status'') (JStr ''unknown''),
           kf_created_at =
             coalesce (optProp ([?item] ! i) ''created_at'') (JNum (Date_now ?h lg)),
           kf_metadata = Some (coalesce (optProp ([?item] ! i) ''metadata'') (JObj []))\<rparr>"
    by blast
  from keep [rule_format, of 0 "[listFiles_request fixture_settings]"
      "Responded \<lparr>status = 500, statusText = ''Internal Server Error'', json = None\<rparr>"]
    a0 u
  have "files ! 0 = kept_file"
    by (simp add: item_log_def kept_file_def optProp_def coalesce_def)
  moreover have "length files = 1"
    using len by simp
  ultimately have "files = [kept_file]"
    by (cases files) simp_all
  then show ?thesis
    using first f by simp
qed

subsection \<open>Error messages\<close>

text \<open>
  Claim C7. For a response whose status is not 2xx, \<open>handleResponse\<close> returns a failure:
  when the body parses to an object whose \<^verbatim>\<open>error\<close> is an object with a string
  \<^verbatim>\<open>message\<close>, the error is that message; when the body does not parse, the error is the
  status, a space and the status text.
\<close>

theorem handleResponse_error_message:
  assumes "\<not> res_ok res"
  shows "(json res = Some (JObj kvs) \<and> map_of kvs ''error'' = Some (JObj evs) \<and>
            map_of evs ''message'' = Some (JStr m) \<longrightarrow>
          handleResponse res = Inr (Failure (JStr m))) \<and>
         (json res = None \<longrightarrow>
          handleResponse res =
            Inr (Failure (JStr (show_nat (status res) @ '' '' @ statusText res))))"
  using assms by (simp add: handleResponse_def optProp_def coalesce_def)

theorem handleResponse_error_message_witness:
  "handleResponse
     \<lparr>status = 401, statusText = ''Unauthorized'',
      json = Some (JObj [(''error'', JObj [(''message'', JStr ''bad key'')])])\<rparr>
     = Inr (Failure (JStr ''bad key'' :: int jsval)) \<and>
   handleResponse \<lparr>status = 502, statusText = ''Bad Gateway'', json = None\<rparr>
     = Inr (Failure (JStr ''502 Bad Gateway'' :: int jsval))"
  using handleResponse_error_message
          [of "\<lparr>status = 401, statusText = ''Unauthorized'',
                json = Some (JObj [(''error'', JObj [(''message'', JStr ''bad key'')])])\<rparr>"
              "[(''error'', JObj [(''message'', JStr ''bad key'')])]"
              "[(''message'', JStr ''bad key'')]" "''bad key''"]
        handleResponse_error_message
          [of "\<lparr>status = 502, statusText = ''Bad Gateway'', json = None\<rparr> :: int response"]
  by (simp add: res_ok_def show_nat.simps)

subsection \<open>Text extraction\<close>

lemma sequence_map_Inr:
  "(\<And>x. x \<in> set xs \<Longrightarrow> f x = Inr (g x)) \<Longrightarrow> sequence (map f xs) = Inr (map g xs)"
  by (induction xs) simp_all

lemma string_member_object: "string_member k (JObj kvs) = Inr (string_prop kvs k)"
proof (cases "map_of kvs k")
  case None
  then have "k \<notin> fst ` set kvs"
    by (simp add: map_of_eq_None_iff)
  then show ?thesis
    using None by (simp add: string_member_def string_prop_def)
next
  case (Some x)
  then have "k \<in> fst ` set kvs"
    by (metis map_of_eq_None_iff option.distinct(1))
  then show ?thesis
    using Some by (cases x) (simp_all add: string_member_def string_prop_def)
qed

lemma in_op_object: "in_op k (JObj kvs) = Inr (map_of kvs k \<noteq> None)"
  by (simp add: map_of_eq_None_iff)

text \<open>
  Claim C9. On every value (\<^verbatim>\<open>null\<close>, a string, a number, a boolean, an array, an
  object, and \<^verbatim>\<open>undefined\<close>) the evaluation of \<open>toText\<close> returns a string and does not
  throw: the \<^verbatim>\<open>in\<close> operator is reached by objects only and the throw of
  \<^verbatim>\<open>JSON.stringify\<close> is caught. Applied to the string it returned, it returns that
  string: it is idempotent. The string is the one \<open>toText\<close> computes.
\<close>

theorem toText_total_and_idempotent:
  "(\<exists>s. toText_eval h v = Inr s \<and> toText_eval h (JStr s) = Inr s) \<and>
   toText_eval h v = Inr (toText h v)"
proof -
  have eval: "toText_eval h w = Inr (toText h w)" for w
  proof (induction h w rule: toText.induct)
    case (6 h vs)
    then have "sequence (map (toText_eval h) vs) = Inr (map (toText h) vs)"
      by (intro sequence_map_Inr) simp
    then show ?case
      by (subst toText_eval.simps) simp
  next
    case (7 h kvs)
    show ?case
    proof (cases "map_of kvs ''content''")
      case None
      then show ?thesis
        by (subst toText_eval.simps)
          (simp add: string_member_object in_op_object del: in_op.simps
            split: option.splits)
    next
      case (Some c)
      show ?thesis
      proof (cases "string_prop kvs ''text'' = None \<and> string_prop kvs ''output_text'' = None \<and>
          string_prop kvs ''summary'' = None")
        case True
        then have "toText_eval h c = Inr (toText h c)"
          using "7.IH" Some by simp
        then show ?thesis
          using True Some
          by (subst toText_eval.simps)
            (simp add: string_member_object in_op_object del: in_op.simps)
      next
        case False
        then show ?thesis
          using Some
          by (subst toText_eval.simps)
            (auto simp: string_member_object in_op_object simp del: in_op.simps
              split: option.splits)
      qed
    qed
  qed (subst toText_eval.simps, simp)+
  then show ?thesis
    by simp
qed

theorem toText_total_and_idempotent_witness:
  "toText_eval (fixture_host (always Rejected) []) nested_value
     = Inr (''a'' @ [CHR 0x0A] @ ''7'' @ [CHR 0x0A, CHR 0x0A] @ ''true'') \<and>
   toText_eval (fixture_host (always Rejected) [])
       (JStr (''a'' @ [CHR 0x0A] @ ''7'' @ [CHR 0x0A, CHR 0x0A] @ ''true''))
     = Inr (''a'' @ [CHR 0x0A] @ ''7'' @ [CHR 0x0A, CHR 0x0A] @ ''true'')"
proof -
  have "toText (fixture_host (always Rejected) []) nested_value
      = ''a'' @ [CHR 0x0A] @ ''7'' @ [CHR 0x0A, CHR 0x0A] @ ''true''"
    by (simp add: nested_value_def fixture_host_def string_prop_def show_int_def show_nat.simps)
  then show ?thesis
    using toText_total_and_idempotent
            [where h = "fixture_host (always Rejected) []" and v = nested_value]
    by auto
qed

text \<open>
  Claim C4. When the chat request is answered by a 2xx response, \<open>askQuestion\<close> returns
  a message whose content is \<^verbatim>\<open>Paris\<close> for the body with a message block holding an
  \<^verbatim>\<open>output_text\<close> item, \<^verbatim>\<open>Lyon\<close> for the body with only a top-level \<^verbatim>\<open>output_text\<close>, and
  the literal \<^verbatim>\<open>No response\<close> for the unrecognized body \<^verbatim>\<open>{foo: n}\<close>.
\<close>

theorem askQuestion_unwraps_vectors:
  assumes "trim question \<noteq> []" and "apiKey settings \<noteq> []" and "vectorStoreId settings \<noteq> []"
    and "remote h log (askQuestion_request question chatHistory settings) = Responded res"
    and "res_ok res" and "json res = Some parsed"
  shows "(parsed = vector_message \<longrightarrow>
            (\<exists>m. fst (askQuestion h question chatHistory settings log) = Inr (Success m) \<and>
                 msg_content m = ''Paris'')) \<and>
         (parsed = vector_output_text \<longrightarrow>
            (\<exists>m. fst (askQuestion h question chatHistory settings log) = Inr (Success m) \<and>
                 msg_content m = ''Lyon'')) \<and>
         (parsed = vector_unrecognized n \<longrightarrow>
            (\<exists>m. fst (askQuestion h question chatHistory settings log) = Inr (Success m) \<and>
                 msg_content m = ''No response''))"
proof -
  have parsed_ok: "handleResponse res = Inr (Success parsed)"
    using assms(5,6) by (simp add: handleResponse_def)
  have ask: "fst (askQuestion h question chatHistory settings log) =
      (case unwrap_content h parsed of
         Inl e \<Rightarrow> Inl e
       | Inr c \<Rightarrow>
           Inr (Success
             \<lparr>msg_id = coalesce (optProp parsed ''id'')
                 (JStr (randomUUID h (log @ [askQuestion_request question chatHistory settings]))),
              msg_role = Assistant, msg_content = c,
              msg_createdAt =
                Date_now h (log @ [askQuestion_request question chatHistory settings])\<rparr>))"
    using assms(1-4) parsed_ok
    by (simp add: askQuestion_def ensureSettings_ok fetch_def split: sum.splits)
  have paris: "unwrap_content h vector_message = Inr ''Paris''"
    by (simp add: unwrap_content_def vector_message_def optProp_def coalesce_def
        string_prop_def or_else_def)
  have lyon: "unwrap_content h vector_output_text = Inr ''Lyon''"
    by (simp add: unwrap_content_def vector_output_text_def optProp_def coalesce_def
        string_prop_def or_else_def)
  have none: "unwrap_content h (vector_unrecognized n) = Inr ''No response''"
    by (simp add: unwrap_content_def vector_unrecognized_def optProp_def coalesce_def
        string_prop_def or_else_def)
  show ?thesis
    by (simp add: ask paris lyon none)
qed

theorem askQuestion_unwraps_vectors_witness:
  "(\<exists>m. fst (askQuestion (fixture_host (always (ok_json vector_message)) [])
              ''Capital of France?'' [] fixture_settings []) = Inr (Success m) \<and>
        msg_content m = ''Paris'') \<and>
   (\<exists>m. fst (askQuestion (fixture_host (always (ok_json vector_output_text)) [])
              ''Capital of France?'' [] fixture_settings []) = Inr (Success m) \<and>
        msg_content m = ''Lyon'') \<and>
   (\<exists>m. fst (askQuestion (fixture_host (always (ok_json (vector_unrecognized 1))) [])
              ''Capital of France?'' [] fixture_settings []) = Inr (Success m) \<and>
        msg_content m = ''No response'')"
proof -
  have q: "trim ''Capital of France?'' \<noteq> []"
    by (simp add: trim_def is_ws_def)
  have s: "apiKey fixture_settings \<noteq> []" "vectorStoreId fixture_settings \<noteq> []"
    by (simp_all add: fixture_settings_def)
  have ok: "res_ok \<lparr>status = 200, statusText = ''OK'', json = Some b\<rparr>" for b :: "int jsval"
    by (simp add: res_ok_def)
  have r: "remote (fixture_host (always (ok_json b)) []) []
             (askQuestion_request ''Capital of France?'' [] fixture_settings)
           = Responded \<lparr>status = 200, statusText = ''OK'', json = Some b\<rparr>" for b
    by (simp add: fixture_host_def ok_json_def always_def)
  show ?thesis
    using askQuestion_unwraps_vectors [OF q s r ok, of vector_message vector_message 1]
      askQuestion_unwraps_vectors [OF q s r ok, of vector_output_text vector_output_text 1]
      askQuestion_unwraps_vectors [OF q s r ok, of "vector_unrecognized 1" "vector_unrecognized 1" 1]
    by simp
qed

end
